theory Spec2Isabelle
  imports Complex_Main
begin

section \<open>JavaScript values that the code inspects\<close>

text \<open>
  A field of a parsed JSON object that the code tests for truthiness (with \<open>&&\<close>,
  \<open>||\<close> or \<open>?:\<close>) may be missing (\<open>Undefined\<close>), \<open>null\<close> or present.
  Fields the code reads without any test keep the type that the TypeScript interface
  declares. JavaScript numbers are modelled as \<open>real\<close> where they are only copied, and as
  \<open>int\<close> where they are volcano numbers, years or explosivity indices.
\<close>

datatype 'a js = Undefined | Null | Val 'a

fun truthy_obj :: "'a js \<Rightarrow> bool" where
  "truthy_obj (Val _) = True"
| "truthy_obj _ = False"

fun truthy_str :: "string js \<Rightarrow> bool" where
  "truthy_str (Val s) = (s \<noteq> [])"
| "truthy_str _ = False"

text \<open>\<open>a || d\<close> on a string field and on a number field.\<close>

fun or_str :: "string js \<Rightarrow> string \<Rightarrow> string" where
  "or_str (Val s) d = (if s \<noteq> [] then s else d)"
| "or_str _ d = d"

fun or_real :: "real js \<Rightarrow> real \<Rightarrow> real" where
  "or_real (Val x) d = (if x \<noteq> 0 then x else d)"
| "or_real _ d = d"

text \<open>A string field inside a template literal.\<close>

fun template_str :: "string js \<Rightarrow> string" where
  "template_str (Val s) = s"
| "template_str Null = ''null''"
| "template_str Undefined = ''undefined''"

text \<open>\<open>String(n)\<close> for an integral number: decimal digits, with a minus sign.\<close>

definition digit_char :: "nat \<Rightarrow> char" where
  "digit_char d = ''0123456789'' ! (d mod 10)"

fun digits :: "nat \<Rightarrow> string" where
  "digits n = (if n < 10 then [digit_char n] else digits (n div 10) @ [digit_char (n mod 10)])"

declare digits.simps [simp del]

definition String_num :: "int \<Rightarrow> string" where
  "String_num i = (if i < 0 then CHR ''-'' # digits (nat (- i)) else digits (nat i))"

text \<open>
  A JavaScript \<open>Map\<close> keeps its entries in insertion order with one entry per key:
  an association list whose \<open>set\<close> overwrites in place or appends.
\<close>

type_synonym ('k, 'v) js_map = "('k \<times> 'v) list"

definition Map_has :: "('k, 'v) js_map \<Rightarrow> 'k \<Rightarrow> bool" where
  "Map_has m k = (map_of m k \<noteq> None)"

definition Map_get :: "('k, 'v) js_map \<Rightarrow> 'k \<Rightarrow> 'v option" where
  "Map_get m k = map_of m k"

fun Map_set :: "('k, 'v) js_map \<Rightarrow> 'k \<Rightarrow> 'v \<Rightarrow> ('k, 'v) js_map" where
  "Map_set [] k v = [(k, v)]"
| "Map_set (p # ps) k v = (if fst p = k then (k, v) # ps else p # Map_set ps k v)"

section \<open>Errors and fetch outcomes\<close>

datatype error =
    FetchFailed
  | HttpError nat
  | JsonSyntaxError
  | TypeError
  | InvalidGeoJSON

text \<open>
  What \<open>response.json()\<close> delivers, as far as the code looks at it: the member
  \<open>features\<close> is missing; or it is a string, the one JSON value besides an array that
  \<open>for ... of\<close> iterates (character by character); or it is another value that is not
  an array (\<open>null\<close>, a boolean, a number, an object); or it is an array.
\<close>

datatype 'f payload =
    NoFeatures
  | FeaturesString string
  | FeaturesOther
  | FeatureCollection "'f list"

text \<open>
  What \<open>fetch\<close> delivers: a rejected promise, or a response with a status code and a
  body that parses as JSON (\<open>Some\<close>) or does not (\<open>None\<close>).
\<close>

datatype 'f fetch_outcome = NetworkError | HttpResponse nat "'f payload option"

definition response_ok :: "nat \<Rightarrow> bool" where
  "response_ok code = (200 \<le> code \<and> code \<le> 299)"

section \<open>The eruption feed (gvp-eruptions.ts)\<close>

definition GVP_ERUPTIONS_URL :: string where
  "GVP_ERUPTIONS_URL = ''https://webservices.volcano.si.edu/geoserver/GVP-VOTW/ows?service=WFS&version=1.0.0&request=GetFeature&typeName=GVP-VOTW:E3WebApp_Eruptions1960&outputFormat=application/json''"

record GVPEruption =
  VolcanoNumber :: int
  VolcanoName :: string
  ContinuingEruption :: string
  StartDate :: "string option"
  StartDateYear :: int
  ExplosivityIndexMax :: "int option"

record eruption_feature =
  properties_e :: "GVPEruption js"

record ActiveEruption =
  volcanoId :: string
  volcanoName :: string
  startDate :: "string option"
  vei_e :: "int option"

record EruptionCache =
  eruptions :: "(string, ActiveEruption) js_map"
  timestamp_e :: int

definition ERUPTION_CACHE_DURATION :: int where
  "ERUPTION_CACHE_DURATION = 30 * 60 * 1000"

section \<open>The volcano catalog (api/volcanoes/route.ts): data\<close>

datatype VolcanoStatus = Normal | Advisory | Watch | Warning | Erupting

record Volcano =
  id_v :: string
  name :: string
  country :: string
  region :: string
  latitude :: real
  longitude :: real
  elevation :: real
  type_v :: string
  status :: VolcanoStatus
  lastEruption :: "string option"
  vei :: "int option"
  description :: "string option"
  tectonicSetting :: "string option"
  rockTypes :: "string list option"

record CachedData =
  volcanoes :: "Volcano list"
  timestamp :: int

definition CACHE_DURATION :: int where
  "CACHE_DURATION = 6 * 60 * 60 * 1000"

definition GVP_GEOJSON_URL :: string where
  "GVP_GEOJSON_URL = ''https://webservices.volcano.si.edu/geoserver/GVP-VOTW/ows?service=WFS&version=1.0.0&request=GetFeature&typeName=GVP-VOTW:Smithsonian_VOTW_Holocene_Volcanoes&outputFormat=application/json''"

section \<open>Module state and effects\<close>

text \<open>
  The module-level variables of the two modules, and a log of the URLs requested with
  \<open>fetch\<close>, in order. Console output is not modelled.
\<close>

record state =
  eruptionCache :: "EruptionCache option"
  cachedData :: "CachedData option"
  activeEruptions :: "(string, ActiveEruption) js_map"
  requests :: "string list"

text \<open>\<open>try { body } catch (error) { handler }\<close>: the handler runs in the state the body left.\<close>

definition try_catch ::
  "(error + 'a) \<times> state \<Rightarrow> (error \<Rightarrow> state \<Rightarrow> (error + 'a) \<times> state) \<Rightarrow> (error + 'a) \<times> state" where
  "try_catch body handler =
     (case body of
        (Inl e, s) \<Rightarrow> handler e s
      | (Inr v, s) \<Rightarrow> (Inr v, s))"

section \<open>The eruption feed: operations\<close>

text \<open>The \<open>for ... of data.features\<close> loop building the local map \<open>activeEruptions\<close>.\<close>

fun eruptions_loop ::
  "eruption_feature list \<Rightarrow> (string, ActiveEruption) js_map
     \<Rightarrow> error + (string, ActiveEruption) js_map" where
  "eruptions_loop [] acc = Inr acc"
| "eruptions_loop (feature # rest) acc =
     (case properties_e feature of
        Val props \<Rightarrow>
          if ContinuingEruption props = ''True'' then
            (let volcanoId = String_num (VolcanoNumber props) in
             if \<not> Map_has acc volcanoId then
               eruptions_loop rest
                 (Map_set acc volcanoId
                    \<lparr>volcanoId = volcanoId,
                     volcanoName = VolcanoName props,
                     startDate = StartDate props,
                     vei_e = ExplosivityIndexMax props\<rparr>)
             else eruptions_loop rest acc)
          else eruptions_loop rest acc
      | _ \<Rightarrow> Inl TypeError)"

text \<open>
  \<open>for (const feature of data.features)\<close> on each kind of payload. There is no
  \<open>Array.isArray\<close> test on this path: a missing member and a value that is not
  iterable raise a TypeError; a string is iterated by characters, which have no
  \<open>properties\<close>, so the first character raises a TypeError and the empty string ends
  the loop at once with the empty map.
\<close>

definition iterate_features ::
  "eruption_feature payload \<Rightarrow> error + (string, ActiveEruption) js_map" where
  "iterate_features data =
     (case data of
        NoFeatures \<Rightarrow> Inl TypeError
      | FeaturesOther \<Rightarrow> Inl TypeError
      | FeaturesString chars \<Rightarrow> if chars = [] then Inr [] else Inl TypeError
      | FeatureCollection features \<Rightarrow> eruptions_loop features [])"

text \<open>
  The part of the \<open>try\<close> block after the cache check: the request, the status check,
  the JSON body, the loop, and the cache update that only a completed loop reaches.
\<close>

definition eruptions_refetch ::
  "int \<Rightarrow> eruption_feature fetch_outcome \<Rightarrow> state
     \<Rightarrow> (error + (string, ActiveEruption) js_map) \<times> state" where
  "eruptions_refetch now outcome s =
     (let s1 = s\<lparr>requests := requests s @ [GVP_ERUPTIONS_URL]\<rparr> in
      case outcome of
        NetworkError \<Rightarrow> (Inl FetchFailed, s1)
      | HttpResponse code body \<Rightarrow>
          if \<not> response_ok code then (Inl (HttpError code), s1)
          else
            (case body of
               None \<Rightarrow> (Inl JsonSyntaxError, s1)
             | Some data \<Rightarrow>
                 (case iterate_features data of
                    Inl e \<Rightarrow> (Inl e, s1)
                  | Inr found \<Rightarrow>
                      (Inr found,
                       s1\<lparr>eruptionCache := Some \<lparr>eruptions = found, timestamp_e = now\<rparr>\<rparr>))))"

definition fetchActiveEruptions_try ::
  "int \<Rightarrow> eruption_feature fetch_outcome \<Rightarrow> state
     \<Rightarrow> (error + (string, ActiveEruption) js_map) \<times> state" where
  "fetchActiveEruptions_try now outcome s =
     (case eruptionCache s of
        Some c \<Rightarrow>
          if now - timestamp_e c < ERUPTION_CACHE_DURATION then (Inr (eruptions c), s)
          else eruptions_refetch now outcome s
      | None \<Rightarrow> eruptions_refetch now outcome s)"

definition fetchActiveEruptions_catch ::
  "error \<Rightarrow> state \<Rightarrow> (error + (string, ActiveEruption) js_map) \<times> state" where
  "fetchActiveEruptions_catch e s =
     (case eruptionCache s of
        Some c \<Rightarrow> (Inr (eruptions c), s)
      | None \<Rightarrow> (Inr [], s))"

text \<open>
  \<open>fetchActiveEruptions\<close>, given the reading of \<open>Date.now()\<close> and what the request
  would deliver. \<open>Inl\<close> is an exception that reaches the caller.
\<close>

definition fetchActiveEruptions ::
  "int \<Rightarrow> eruption_feature fetch_outcome \<Rightarrow> state
     \<Rightarrow> (error + (string, ActiveEruption) js_map) \<times> state" where
  "fetchActiveEruptions now outcome s =
     try_catch (fetchActiveEruptions_try now outcome s) fetchActiveEruptions_catch"

definition invalidateEruptionCache :: "state \<Rightarrow> state" where
  "invalidateEruptionCache s = s\<lparr>eruptionCache := None\<rparr>"

text \<open>The POST handler of \<open>api/volcanoes/refresh\<close>: the success flag and the new state.\<close>

definition POST :: "state \<Rightarrow> bool \<times> state" where
  "POST s = (True, invalidateEruptionCache s)"

section \<open>The volcano catalog: operations\<close>

definition WARNING_VOLCANO_IDS :: "string list" where
  "WARNING_VOLCANO_IDS = [''263250'', ''341090'', ''342090'', ''263340'']"

definition WATCH_VOLCANO_IDS :: "string list" where
  "WATCH_VOLCANO_IDS =
     [''352010'', ''212040'', ''357120'', ''282110'', ''311070'', ''264020'', ''263310'']"

definition ADVISORY_VOLCANO_IDS :: "string list" where
  "ADVISORY_VOLCANO_IDS =
     [''264140'', ''383010'', ''223020'', ''221080'', ''264020'', ''273070'', ''211010'',
      ''311060'', ''241040'']"

text \<open>\<open>determineStatus\<close> reads the module variable \<open>activeEruptions\<close>, passed here.\<close>

definition determineStatus :: "(string, ActiveEruption) js_map \<Rightarrow> string \<Rightarrow> VolcanoStatus" where
  "determineStatus active volcano_id =
     (if Map_has active volcano_id then Erupting
      else if volcano_id \<in> set WARNING_VOLCANO_IDS then Warning
      else if volcano_id \<in> set WATCH_VOLCANO_IDS then Watch
      else if volcano_id \<in> set ADVISORY_VOLCANO_IDS then Advisory
      else Normal)"

record Geometry =
  coordinates :: "(real \<times> real) js"

record GVPProperties =
  Volcano_Number :: int
  Volcano_Name :: "string js"
  Country :: "string js"
  Region :: "string js"
  Subregion :: "string js"
  Primary_Volcano_Type :: "string js"
  Elevation :: "real js"
  Last_Eruption_Year :: "int js"
  Tectonic_Setting :: "string js"
  Major_Rock_Type :: "string js"

record GVPFeature =
  geometry :: "Geometry js"
  properties :: "GVPProperties js"

text \<open>
  \<open>parseGeoJSONFeature\<close>. Reading a member of a missing \<open>properties\<close>, \<open>geometry\<close>
  or \<open>coordinates\<close> is a TypeError. A feature without a name string has no \<open>Volcano\<close>
  either (its name would fail in \<open>localeCompare\<close>); the filter before the call lets
  none of these through. The object literal has no \<open>vei\<close> member.
\<close>

definition parseGeoJSONFeature ::
  "(string, ActiveEruption) js_map \<Rightarrow> GVPFeature \<Rightarrow> error + Volcano" where
  "parseGeoJSONFeature active feature =
     (case (properties feature, geometry feature) of
        (Val props, Val g) \<Rightarrow>
          (case (coordinates g, Volcano_Name props) of
             (Val coords, Val nm) \<Rightarrow>
               (let volcanoId = String_num (Volcano_Number props) in
                Inr \<lparr>id_v = volcanoId,
                     name = nm,
                     country = or_str (Country props) ''Unknown'',
                     region = or_str (Subregion props) (or_str (Region props) ''Unknown''),
                     latitude = snd coords,
                     longitude = fst coords,
                     elevation = or_real (Elevation props) 0,
                     type_v = or_str (Primary_Volcano_Type props) ''Unknown'',
                     status = determineStatus active volcanoId,
                     lastEruption =
                       (case Last_Eruption_Year props of
                          Val y \<Rightarrow> if y \<noteq> 0 then Some (String_num y) else None
                        | _ \<Rightarrow> None),
                     vei = None,
                     description =
                       (if truthy_str (Tectonic_Setting props)
                        then Some (template_str (Primary_Volcano_Type props) @ '' volcano in ''
                                   @ template_str (Tectonic_Setting props) @ '' setting.'')
                        else None),
                     tectonicSetting =
                       (if truthy_str (Tectonic_Setting props)
                        then Some (template_str (Tectonic_Setting props)) else None),
                     rockTypes =
                       (if truthy_str (Major_Rock_Type props)
                        then Some [template_str (Major_Rock_Type props)] else None)\<rparr>)
           | _ \<Rightarrow> Inl TypeError)
      | _ \<Rightarrow> Inl TypeError)"

text \<open>The predicate of \<open>.filter\<close>: the \<open>&&\<close> chain is truthy when all four members are.\<close>

definition feature_retained :: "GVPFeature \<Rightarrow> bool" where
  "feature_retained f =
     ((case geometry f of Val g \<Rightarrow> truthy_obj (coordinates g) | _ \<Rightarrow> False)
      \<and> (case properties f of Val p \<Rightarrow> truthy_str (Volcano_Name p) | _ \<Rightarrow> False))"

text \<open>\<open>.map(parseGeoJSONFeature)\<close>: the first exception ends it.\<close>

fun map_parse ::
  "(string, ActiveEruption) js_map \<Rightarrow> GVPFeature list \<Rightarrow> error + Volcano list" where
  "map_parse active [] = Inr []"
| "map_parse active (f # fs) =
     (case parseGeoJSONFeature active f of
        Inl e \<Rightarrow> Inl e
      | Inr v \<Rightarrow> (case map_parse active fs of Inl e \<Rightarrow> Inl e | Inr vs \<Rightarrow> Inr (v # vs)))"

definition statusPriority :: "VolcanoStatus \<Rightarrow> int" where
  "statusPriority st =
     (case st of Erupting \<Rightarrow> 0 | Warning \<Rightarrow> 1 | Watch \<Rightarrow> 2 | Advisory \<Rightarrow> 3 | Normal \<Rightarrow> 4)"

text \<open>
  The comparator handed to \<open>sort\<close>. \<open>localeCompare\<close> belongs to the platform and
  depends on its locale: it is the parameter \<open>lc\<close>, negative, zero or positive.
\<close>

definition compare_volcanoes :: "(string \<Rightarrow> string \<Rightarrow> int) \<Rightarrow> Volcano \<Rightarrow> Volcano \<Rightarrow> int" where
  "compare_volcanoes lc a b =
     (let priorityDiff = statusPriority (status a) - statusPriority (status b) in
      if priorityDiff \<noteq> 0 then priorityDiff else lc (name a) (name b))"

text \<open>
  \<open>Array.prototype.sort\<close> is a stable sort (ECMAScript 2019): an insertion sort that puts
  an element before the first later element it does not exceed.
\<close>

fun insert_by :: "('a \<Rightarrow> 'a \<Rightarrow> int) \<Rightarrow> 'a \<Rightarrow> 'a list \<Rightarrow> 'a list" where
  "insert_by cmp x [] = [x]"
| "insert_by cmp x (y # ys) = (if cmp x y \<le> 0 then x # y # ys else y # insert_by cmp x ys)"

definition Array_sort :: "('a \<Rightarrow> 'a \<Rightarrow> int) \<Rightarrow> 'a list \<Rightarrow> 'a list" where
  "Array_sort cmp xs = foldr (insert_by cmp) xs []"

definition getFallbackVolcanoData :: "Volcano list" where
  "getFallbackVolcanoData =
     [\<lparr>id_v = ''300150'', name = ''Kilauea'', country = ''United States'',
       region = ''Hawaiian Islands'', latitude = 19.421, longitude = -155.287,
       elevation = 1222, type_v = ''Shield'', status = Erupting,
       lastEruption = Some ''2024'', vei = Some 1, description = None,
       tectonicSetting = None, rockTypes = None\<rparr>,
      \<lparr>id_v = ''211040'', name = ''Stromboli'', country = ''Italy'',
       region = ''Aeolian Islands'', latitude = 38.789, longitude = 15.213,
       elevation = 924, type_v = ''Stratovolcano'', status = Erupting,
       lastEruption = Some ''2024'', vei = Some 2, description = None,
       tectonicSetting = None, rockTypes = None\<rparr>,
      \<lparr>id_v = ''211060'', name = ''Etna'', country = ''Italy'',
       region = ''Sicily'', latitude = 37.748, longitude = 14.999,
       elevation = 3357, type_v = ''Stratovolcano'', status = Erupting,
       lastEruption = Some ''2024'', vei = Some 2, description = None,
       tectonicSetting = None, rockTypes = None\<rparr>,
      \<lparr>id_v = ''282080'', name = ''Sakurajima'', country = ''Japan'',
       region = ''Kyushu'', latitude = 31.585, longitude = 130.657,
       elevation = 1117, type_v = ''Stratovolcano'', status = Erupting,
       lastEruption = Some ''2024'', vei = Some 2, description = None,
       tectonicSetting = None, rockTypes = None\<rparr>,
      \<lparr>id_v = ''263300'', name = ''Semeru'', country = ''Indonesia'',
       region = ''Java'', latitude = -8.108, longitude = 112.922,
       elevation = 3676, type_v = ''Stratovolcano'', status = Erupting,
       lastEruption = Some ''2024'', vei = Some 2, description = None,
       tectonicSetting = None, rockTypes = None\<rparr>]"

text \<open>
  What a request handler meets outside the module state: the readings of the clock in
  \<open>GET\<close>, in \<open>fetchActiveEruptions\<close> and in the \<open>catch\<close> block of \<open>GET\<close>, what the
  two requests would deliver, and the platform's \<open>localeCompare\<close>.
\<close>

record env =
  now_GET :: int
  now_eruptions :: int
  now_catch :: int
  eruption_feed :: "eruption_feature fetch_outcome"
  catalog_feed :: "GVPFeature fetch_outcome"
  localeCompare :: "string \<Rightarrow> string \<Rightarrow> int"

text \<open>The statements of \<open>fetchVolcanoData\<close> from the catalog request to the \<open>return\<close>.\<close>

definition catalog_refetch :: "env \<Rightarrow> state \<Rightarrow> (error + Volcano list) \<times> state" where
  "catalog_refetch w s =
     (let s1 = s\<lparr>requests := requests s @ [GVP_GEOJSON_URL]\<rparr> in
      case catalog_feed w of
        NetworkError \<Rightarrow> (Inl FetchFailed, s1)
      | HttpResponse code body \<Rightarrow>
          if \<not> response_ok code then (Inl (HttpError code), s1)
          else
            (case body of
               None \<Rightarrow> (Inl JsonSyntaxError, s1)
             | Some NoFeatures \<Rightarrow> (Inl InvalidGeoJSON, s1)
             | Some (FeaturesString chars) \<Rightarrow> (Inl InvalidGeoJSON, s1)
             | Some FeaturesOther \<Rightarrow> (Inl InvalidGeoJSON, s1)
             | Some (FeatureCollection features) \<Rightarrow>
                 (case map_parse (activeEruptions s1) (filter feature_retained features) of
                    Inl e \<Rightarrow> (Inl e, s1)
                  | Inr parsed \<Rightarrow>
                      (Inr (Array_sort (compare_volcanoes (localeCompare w)) parsed), s1))))"

definition fetchVolcanoData_try :: "env \<Rightarrow> state \<Rightarrow> (error + Volcano list) \<times> state" where
  "fetchVolcanoData_try w s =
     (case fetchActiveEruptions (now_eruptions w) (eruption_feed w) s of
        (Inl e, s1) \<Rightarrow> (Inl e, s1)
      | (Inr active, s1) \<Rightarrow> catalog_refetch w (s1\<lparr>activeEruptions := active\<rparr>))"

definition fetchVolcanoData_catch :: "error \<Rightarrow> state \<Rightarrow> (error + Volcano list) \<times> state" where
  "fetchVolcanoData_catch e s = (Inr getFallbackVolcanoData, s)"

definition fetchVolcanoData :: "env \<Rightarrow> state \<Rightarrow> (error + Volcano list) \<times> state" where
  "fetchVolcanoData w s = try_catch (fetchVolcanoData_try w s) fetchVolcanoData_catch"

text \<open>
  The JSON response of the GET handler; \<open>lastUpdated\<close> is kept as the millisecond
  timestamp that \<open>toISOString\<close> prints.
\<close>

record VolcanoApiResponse =
  http_status :: nat
  volcanoes_r :: "Volcano list"
  lastUpdated :: int
  totalCount :: nat

definition GET_refresh :: "env \<Rightarrow> state \<Rightarrow> (error + VolcanoApiResponse) \<times> state" where
  "GET_refresh w s =
     (case fetchVolcanoData w s of
        (Inl e, s1) \<Rightarrow> (Inl e, s1)
      | (Inr vs, s1) \<Rightarrow>
          (Inr \<lparr>http_status = 200, volcanoes_r = vs, lastUpdated = now_GET w,
                totalCount = length vs\<rparr>,
           s1\<lparr>cachedData := Some \<lparr>volcanoes = vs, timestamp = now_GET w\<rparr>\<rparr>))"

definition GET_try :: "env \<Rightarrow> state \<Rightarrow> (error + VolcanoApiResponse) \<times> state" where
  "GET_try w s =
     (case cachedData s of
        Some c \<Rightarrow>
          if now_GET w - timestamp c < CACHE_DURATION then
            (Inr \<lparr>http_status = 200, volcanoes_r = volcanoes c, lastUpdated = timestamp c,
                  totalCount = length (volcanoes c)\<rparr>, s)
          else GET_refresh w s
      | None \<Rightarrow> GET_refresh w s)"

definition GET_catch :: "env \<Rightarrow> error \<Rightarrow> state \<Rightarrow> (error + VolcanoApiResponse) \<times> state" where
  "GET_catch w e s =
     (Inr \<lparr>http_status = 500, volcanoes_r = getFallbackVolcanoData, lastUpdated = now_catch w,
           totalCount = 5\<rparr>, s)"

text \<open>The GET handler of \<open>api/volcanoes\<close>, the operation the specification calls getVolcanoes().\<close>

definition GET :: "env \<Rightarrow> state \<Rightarrow> (error + VolcanoApiResponse) \<times> state" where
  "GET w s = try_catch (GET_try w s) (GET_catch w)"

section \<open>Vocabulary of the properties\<close>

text \<open>The inverse of \<open>digits\<close>, used to show that \<open>String\<close> keeps numbers apart.\<close>

definition digit_val :: "char \<Rightarrow> nat" where
  "digit_val c = of_char c - 48"

definition undigits :: "string \<Rightarrow> nat" where
  "undigits cs = foldl (\<lambda>acc c. 10 * acc + digit_val c) 0 cs"

text \<open>
  The failures of the eruption request that raise an exception in the \<open>try\<close> block:
  the network, the status, the JSON syntax, a \<open>features\<close> member that is missing, not
  iterable or a non-empty string, or a feature without \<open>properties\<close>.
\<close>

definition eruption_feed_fails :: "eruption_feature fetch_outcome \<Rightarrow> bool" where
  "eruption_feed_fails outcome =
     (case outcome of
        NetworkError \<Rightarrow> True
      | HttpResponse code body \<Rightarrow>
          \<not> response_ok code \<or>
          (case body of
             None \<Rightarrow> True
           | Some NoFeatures \<Rightarrow> True
           | Some (FeaturesString chars) \<Rightarrow> chars \<noteq> []
           | Some FeaturesOther \<Rightarrow> True
           | Some (FeatureCollection features) \<Rightarrow>
               list_ex (\<lambda>f. \<not> truthy_obj (properties_e f)) features))"

definition eruption_cache_fresh :: "int \<Rightarrow> state \<Rightarrow> bool" where
  "eruption_cache_fresh now s =
     (case eruptionCache s of
        Some c \<Rightarrow> now - timestamp_e c < ERUPTION_CACHE_DURATION
      | None \<Rightarrow> False)"

text \<open>
  The specification's wording of the snapshot: for an identifier, the first record of
  the feed, in delivery order, that is flagged as continuing and carries that identifier.
\<close>

definition continuing_for :: "string \<Rightarrow> eruption_feature \<Rightarrow> bool" where
  "continuing_for k f =
     (case properties_e f of
        Val p \<Rightarrow> ContinuingEruption p = ''True'' \<and> String_num (VolcanoNumber p) = k
      | _ \<Rightarrow> False)"

definition eruption_entry :: "eruption_feature \<Rightarrow> ActiveEruption option" where
  "eruption_entry f =
     (case properties_e f of
        Val p \<Rightarrow> Some \<lparr>volcanoId = String_num (VolcanoNumber p), volcanoName = VolcanoName p,
                       startDate = StartDate p, vei_e = ExplosivityIndexMax p\<rparr>
      | _ \<Rightarrow> None)"

definition first_continuing :: "string \<Rightarrow> eruption_feature list \<Rightarrow> ActiveEruption option" where
  "first_continuing k fs = Option.bind (find (continuing_for k) fs) eruption_entry"

text \<open>
  The catalog request fails: the network, the status, the JSON syntax, or a payload whose
  \<open>features\<close> member is missing or not an array.
\<close>

definition catalog_feed_fails :: "GVPFeature fetch_outcome \<Rightarrow> bool" where
  "catalog_feed_fails outcome =
     (case outcome of
        NetworkError \<Rightarrow> True
      | HttpResponse code body \<Rightarrow>
          \<not> response_ok code \<or>
          (case body of
             None \<Rightarrow> True
           | Some NoFeatures \<Rightarrow> True
           | Some (FeaturesString chars) \<Rightarrow> True
           | Some FeaturesOther \<Rightarrow> True
           | Some (FeatureCollection features) \<Rightarrow> False))"

definition catalog_cache_fresh :: "int \<Rightarrow> state \<Rightarrow> bool" where
  "catalog_cache_fresh now s =
     (case cachedData s of
        Some c \<Rightarrow> now - timestamp c < CACHE_DURATION
      | None \<Rightarrow> False)"

text \<open>The specification's wording of a malformed catalog feature.\<close>

definition lacks_required_member :: "GVPFeature \<Rightarrow> bool" where
  "lacks_required_member f =
     ((case geometry f of
         Val g \<Rightarrow> (case coordinates g of Val _ \<Rightarrow> False | _ \<Rightarrow> True)
       | _ \<Rightarrow> True)
      \<or> (case properties f of
            Val p \<Rightarrow> (case Volcano_Name p of Val n \<Rightarrow> n = [] | _ \<Rightarrow> True)
          | _ \<Rightarrow> True))"

definition feature_number :: "GVPFeature \<Rightarrow> int option" where
  "feature_number f = (case properties f of Val p \<Rightarrow> Some (Volcano_Number p) | _ \<Rightarrow> None)"

text \<open>The order of the specification: by status priority, then by name.\<close>

definition by_priority_then_name :: "(string \<Rightarrow> string \<Rightarrow> int) \<Rightarrow> Volcano \<Rightarrow> Volcano \<Rightarrow> bool" where
  "by_priority_then_name lc a b =
     (statusPriority (status a) < statusPriority (status b)
      \<or> (statusPriority (status a) = statusPriority (status b) \<and> lc (name a) (name b) \<le> 0))"

text \<open>
  What \<open>sort\<close> asks of a comparator: any two arguments are ordered one way or the
  other, and the order is transitive.
\<close>

definition consistent_comparator :: "(string \<Rightarrow> string \<Rightarrow> int) \<Rightarrow> bool" where
  "consistent_comparator lc =
     ((\<forall>a b. lc a b \<le> 0 \<or> lc b a \<le> 0) \<and>
      (\<forall>a b c. lc a b \<le> 0 \<and> lc b c \<le> 0 \<longrightarrow> lc a c \<le> 0))"

text \<open>A list in which every record with an explosivity index is one of the fallback records.\<close>

definition vei_only_in_fallback :: "Volcano list \<Rightarrow> bool" where
  "vei_only_in_fallback vs =
     list_all (\<lambda>v. vei v \<noteq> None \<longrightarrow> v \<in> set getFallbackVolcanoData) vs"

text \<open>A state whose cached catalog has that property.\<close>

definition cache_vei_ok :: "state \<Rightarrow> bool" where
  "cache_vei_ok s =
     (case cachedData s of Some c \<Rightarrow> vei_only_in_fallback (volcanoes c) | None \<Rightarrow> True)"

text \<open>One collation a platform may use for \<open>localeCompare\<close>: by character codes.\<close>

fun codeunit_compare :: "string \<Rightarrow> string \<Rightarrow> int" where
  "codeunit_compare [] [] = 0"
| "codeunit_compare [] (y # ys) = - 1"
| "codeunit_compare (x # xs) [] = 1"
| "codeunit_compare (x # xs) (y # ys) =
     (if (of_char x :: nat) < of_char y then - 1
      else if (of_char y :: nat) < of_char x then 1
      else codeunit_compare xs ys)"

section \<open>Sample inputs\<close>

definition eruption_record :: "int \<Rightarrow> string \<Rightarrow> string \<Rightarrow> string option \<Rightarrow> int option \<Rightarrow> eruption_feature" where
  "eruption_record n nm flag start_date x =
     \<lparr>properties_e = Val \<lparr>VolcanoNumber = n, VolcanoName = nm, ContinuingEruption = flag,
        StartDate = start_date, StartDateYear = 2024, ExplosivityIndexMax = x\<rparr>\<rparr>"

definition sample_feed :: "eruption_feature list" where
  "sample_feed =
     [eruption_record 211060 ''Etna'' ''False'' (Some ''2021-02-16'') (Some 3),
      eruption_record 211060 ''Etna'' ''True'' (Some ''2022-11-27'') (Some 2),
      eruption_record 300150 ''Kilauea'' ''True'' (Some ''2024-12-23'') None,
      eruption_record 211060 ''Etna'' ''True'' (Some ''2013-09-03'') (Some 1)]"

definition etna_entry :: ActiveEruption where
  "etna_entry = \<lparr>volcanoId = ''211060'', volcanoName = ''Etna'',
     startDate = Some ''2022-11-27'', vei_e = Some 2\<rparr>"

definition empty_state :: state where
  "empty_state = \<lparr>eruptionCache = None, cachedData = None, activeEruptions = [], requests = []\<rparr>"

definition etna_cached_state :: state where
  "etna_cached_state =
     \<lparr>eruptionCache = Some \<lparr>eruptions = [(''211060'', etna_entry)], timestamp_e = 0\<rparr>,
      cachedData = None, activeEruptions = [], requests = []\<rparr>"

definition volcano_feature :: "int \<Rightarrow> string \<Rightarrow> GVPFeature" where
  "volcano_feature n nm =
     \<lparr>geometry = Val \<lparr>coordinates = Val (14.999, 37.748)\<rparr>,
      properties = Val \<lparr>Volcano_Number = n, Volcano_Name = Val nm, Country = Val ''Italy'',
        Region = Null, Subregion = Val ''Sicily'', Primary_Volcano_Type = Val ''Stratovolcano'',
        Elevation = Val 3357, Last_Eruption_Year = Val 2024,
        Tectonic_Setting = Val ''Subduction zone'', Major_Rock_Type = Undefined\<rparr>\<rparr>"

definition sample_env :: "GVPFeature fetch_outcome \<Rightarrow> env" where
  "sample_env feed =
     \<lparr>now_GET = 30000000, now_eruptions = 30000001, now_catch = 30000002,
      eruption_feed = HttpResponse 200 (Some (FeatureCollection sample_feed)),
      catalog_feed = feed, localeCompare = codeunit_compare\<rparr>"

definition parsed_volcano :: "string \<Rightarrow> string \<Rightarrow> VolcanoStatus \<Rightarrow> Volcano" where
  "parsed_volcano i nm st =
     \<lparr>id_v = i, name = nm, country = ''Italy'', region = ''Sicily'', latitude = 37.748,
      longitude = 14.999, elevation = 3357, type_v = ''Stratovolcano'', status = st,
      lastEruption = Some ''2024'', vei = None,
      description = Some ''Stratovolcano volcano in Subduction zone setting.'',
      tectonicSetting = Some ''Subduction zone'', rockTypes = None\<rparr>"

definition old_catalog_state :: state where
  "old_catalog_state =
     \<lparr>eruptionCache = None,
      cachedData = Some \<lparr>volcanoes = [parsed_volcano ''211060'' ''Etna'' Normal], timestamp = 0\<rparr>,
      activeEruptions = [], requests = []\<rparr>"

definition sample_snapshot :: "(string, ActiveEruption) js_map" where
  "sample_snapshot =
     [(''211060'', etna_entry),
      (''300150'', \<lparr>volcanoId = ''300150'', volcanoName = ''Kilauea'',
                     startDate = Some ''2024-12-23'', vei_e = None\<rparr>)]"

definition duplicate_catalog :: "GVPFeature list" where
  "duplicate_catalog =
     [volcano_feature 211060 ''Etna (summit)'', volcano_feature 211060 ''Etna'']"

definition partly_malformed_catalog :: "GVPFeature list" where
  "partly_malformed_catalog =
     [(volcano_feature 300150 ''Kilauea'')\<lparr>geometry := Undefined\<rparr>,
      volcano_feature 211060 ''Etna'']"

definition mixed_catalog :: "GVPFeature list" where
  "mixed_catalog =
     [volcano_feature 999999 ''Zeta'', volcano_feature 264020 ''Krakatau'',
      volcano_feature 300150 ''Alpha'']"

section \<open>Decimal rendering\<close>

lemma digits_small: "n < 10 \<Longrightarrow> digits n = [digit_char n]"
  by (simp add: digits.simps)

lemma digits_large: "10 \<le> n \<Longrightarrow> digits n = digits (n div 10) @ [digit_char (n mod 10)]"
  by (simp add: digits.simps)

lemma below_ten:
  "(d::nat) < 10 \<Longrightarrow>
     d = 0 \<or> d = 1 \<or> d = 2 \<or> d = 3 \<or> d = 4 \<or> d = 5 \<or> d = 6 \<or> d = 7 \<or> d = 8 \<or> d = 9"
  by arith

lemma digit_val_digit_char: "d < 10 \<Longrightarrow> digit_val (digit_char d) = d"
  using below_ten [of d] by (auto simp: digit_val_def digit_char_def)

lemma undigits_snoc: "undigits (cs @ [c]) = 10 * undigits cs + digit_val c"
  by (simp add: undigits_def)

lemma undigits_digits: "undigits (digits n) = n"
proof (induction n rule: digits.induct)
  case (1 n)
  show ?case
  proof (cases "n < 10")
    case True
    then show ?thesis by (simp add: digits_small undigits_def digit_val_digit_char)
  next
    case False
    then have "undigits (digits n) =
        10 * undigits (digits (n div 10)) + digit_val (digit_char (n mod 10))"
      by (simp add: digits_large undigits_snoc)
    also have "\<dots> = 10 * (n div 10) + n mod 10"
      using 1 False by (simp add: digit_val_digit_char)
    finally show ?thesis by simp
  qed
qed

lemma digits_inj: "digits a = digits b \<Longrightarrow> a = b"
  by (metis undigits_digits)

lemma digit_char_not_minus: "digit_char d \<noteq> CHR ''-''"
  using below_ten [of "d mod 10"] by (auto simp: digit_char_def)

lemma hd_digits: "digits n \<noteq> [] \<and> hd (digits n) \<noteq> CHR ''-''"
proof (induction n rule: digits.induct)
  case (1 n)
  show ?case
  proof (cases "n < 10")
    case True
    then show ?thesis by (simp add: digits_small digit_char_not_minus)
  next
    case False
    then show ?thesis using 1 by (simp add: digits_large)
  qed
qed

lemma String_num_inj: "String_num a = String_num b \<Longrightarrow> a = b"
proof -
  assume eq: "String_num a = String_num b"
  have neq: "\<And>m n. CHR ''-'' # digits m \<noteq> digits n"
    using hd_digits by (metis list.sel(1))
  show ?thesis
  proof (cases "a < 0")
    case a: True
    show ?thesis
    proof (cases "b < 0")
      case True
      with a eq have "digits (nat (- a)) = digits (nat (- b))" by (simp add: String_num_def)
      then have "nat (- a) = nat (- b)" by (rule digits_inj)
      with a True show ?thesis by simp
    next
      case False
      with a eq neq show ?thesis by (simp add: String_num_def)
    qed
  next
    case a: False
    show ?thesis
    proof (cases "b < 0")
      case True
      with a eq neq[of "nat (- b)" "nat a"] show ?thesis by (simp add: String_num_def)
    next
      case False
      with a eq have "digits (nat a) = digits (nat b)" by (simp add: String_num_def)
      then have "nat a = nat b" by (rule digits_inj)
      with a False show ?thesis by simp
    qed
  qed
qed

lemmas String_num_eval = String_num_def digit_char_def digits_small digits_large

section \<open>The eruption feed: lemmas\<close>

lemma Map_has_iff: "Map_has m k \<longleftrightarrow> k \<in> fst ` set m"
  by (simp add: Map_has_def map_of_eq_None_iff)

lemma map_of_Map_set: "map_of (Map_set m k v) k' = (if k' = k then Some v else map_of m k')"
  by (induction m) auto

lemma keys_Map_set_new: "k \<notin> fst ` set m \<Longrightarrow> map fst (Map_set m k v) = map fst m @ [k]"
  by (induction m) auto

lemma eruptions_loop_missing_properties:
  "list_ex (\<lambda>f. \<not> truthy_obj (properties_e f)) fs \<Longrightarrow> eruptions_loop fs acc = Inl TypeError"
proof (induction fs arbitrary: acc)
  case Nil
  then show ?case by simp
next
  case (Cons f fs)
  show ?case
  proof (cases "properties_e f")
    case (Val p)
    with Cons.prems have "list_ex (\<lambda>f. \<not> truthy_obj (properties_e f)) fs" by simp
    then have "\<And>acc. eruptions_loop fs acc = Inl TypeError" by (rule Cons.IH)
    with Val show ?thesis by (simp add: Let_def)
  qed simp_all
qed

lemma eruptions_loop_total:
  "\<not> list_ex (\<lambda>f. \<not> truthy_obj (properties_e f)) fs \<Longrightarrow> \<exists>m. eruptions_loop fs acc = Inr m"
proof (induction fs arbitrary: acc)
  case Nil
  then show ?case by simp
next
  case (Cons f fs)
  from Cons.prems obtain p where p: "properties_e f = Val p"
    by (cases "properties_e f") simp_all
  from Cons.prems have "\<not> list_ex (\<lambda>f. \<not> truthy_obj (properties_e f)) fs" by simp
  then have "\<And>acc. \<exists>m. eruptions_loop fs acc = Inr m" by (rule Cons.IH)
  with p show ?case by (simp add: Let_def)
qed

lemma eruptions_loop_first_wins:
  "eruptions_loop fs acc = Inr m \<Longrightarrow> distinct (map fst acc) \<Longrightarrow>
     distinct (map fst m) \<and>
     map_of m k = (case map_of acc k of Some v \<Rightarrow> Some v | None \<Rightarrow> first_continuing k fs)"
proof (induction fs arbitrary: acc)
  case Nil
  then show ?case by (simp add: first_continuing_def split: option.splits)
next
  case (Cons f fs)
  show ?case
  proof (cases "properties_e f")
    case (Val p)
    let ?id = "String_num (VolcanoNumber p)"
    let ?e = "\<lparr>volcanoId = ?id, volcanoName = VolcanoName p,
               startDate = StartDate p, vei_e = ExplosivityIndexMax p\<rparr>"
    show ?thesis
    proof (cases "ContinuingEruption p = ''True'' \<and> \<not> Map_has acc ?id")
      case True
      with Val Cons.prems(1) have run: "eruptions_loop fs (Map_set acc ?id ?e) = Inr m"
        by (simp add: Let_def)
      from True have new: "?id \<notin> fst ` set acc" by (simp add: Map_has_iff)
      with Cons.prems(2) have "distinct (map fst (Map_set acc ?id ?e))"
        by (simp add: keys_Map_set_new)
      from Cons.IH [OF run this]
      have d: "distinct (map fst m)"
        and look: "map_of m k =
          (case map_of (Map_set acc ?id ?e) k of Some v \<Rightarrow> Some v | None \<Rightarrow> first_continuing k fs)"
        by simp_all
      from new have none: "map_of acc ?id = None" by (simp add: map_of_eq_None_iff)
      have "map_of m k = (case map_of acc k of Some v \<Rightarrow> Some v | None \<Rightarrow> first_continuing k (f # fs))"
        using look True Val none
        by (auto simp: map_of_Map_set first_continuing_def continuing_for_def eruption_entry_def
              split: option.splits)
      with d show ?thesis by simp
    next
      case False
      with Val Cons.prems(1) have run: "eruptions_loop fs acc = Inr m"
        by (auto simp: Let_def split: if_splits)
      from Cons.IH [OF run Cons.prems(2)]
      have d: "distinct (map fst m)"
        and look: "map_of m k =
          (case map_of acc k of Some v \<Rightarrow> Some v | None \<Rightarrow> first_continuing k fs)"
        by simp_all
      have "map_of m k = (case map_of acc k of Some v \<Rightarrow> Some v | None \<Rightarrow> first_continuing k (f # fs))"
        using look False Val
        by (auto simp: first_continuing_def continuing_for_def Map_has_def split: option.splits)
      with d show ?thesis by simp
    qed
  next
    case Undefined
    with Cons.prems(1) show ?thesis by simp
  next
    case Null
    with Cons.prems(1) show ?thesis by simp
  qed
qed

lemma count_key_distinct:
  "distinct (map fst m) \<Longrightarrow>
     length (filter (\<lambda>e. fst e = k) m) = (if map_of m k = None then 0 else 1)"
proof (induction m)
  case Nil
  then show ?case by simp
next
  case (Cons e m)
  then show ?case
    by (cases e) (auto simp: map_of_eq_None_iff image_iff filter_empty_conv)
qed

lemma first_continuing_None: "first_continuing k fs = None \<longleftrightarrow> \<not> list_ex (continuing_for k) fs"
proof (induction fs)
  case Nil
  then show ?case by (simp add: first_continuing_def)
next
  case (Cons f fs)
  then show ?case
    by (cases "properties_e f")
       (auto simp: first_continuing_def continuing_for_def eruption_entry_def)
qed

lemma eruptions_refetch_fails:
  "eruption_feed_fails outcome \<Longrightarrow>
     \<exists>e. eruptions_refetch now outcome s = (Inl e, s\<lparr>requests := requests s @ [GVP_ERUPTIONS_URL]\<rparr>)"
  by (auto simp: eruption_feed_fails_def eruptions_refetch_def iterate_features_def Let_def
        eruptions_loop_missing_properties
        split: fetch_outcome.splits option.splits payload.splits)

lemma eruptions_refetch_requests:
  "requests (snd (eruptions_refetch now outcome s)) = requests s @ [GVP_ERUPTIONS_URL]"
  by (auto simp: eruptions_refetch_def Let_def
        split: fetch_outcome.splits option.splits payload.splits sum.splits)

lemma eruptions_refetch_success:
  "response_ok code \<Longrightarrow> eruptions_loop fs [] = Inr m \<Longrightarrow>
     eruptions_refetch now (HttpResponse code (Some (FeatureCollection fs))) s =
       (Inr m, s\<lparr>requests := requests s @ [GVP_ERUPTIONS_URL],
                 eruptionCache := Some \<lparr>eruptions = m, timestamp_e = now\<rparr>\<rparr>)"
  by (simp add: eruptions_refetch_def iterate_features_def Let_def)

lemma fetchActiveEruptions_fresh:
  "eruption_cache_fresh now s \<Longrightarrow>
     fetchActiveEruptions now outcome s =
       (Inr (case eruptionCache s of Some c \<Rightarrow> eruptions c | None \<Rightarrow> []), s)"
  by (auto simp: eruption_cache_fresh_def fetchActiveEruptions_def fetchActiveEruptions_try_def
        try_catch_def split: option.splits)

lemma fetchActiveEruptions_try_stale:
  "\<not> eruption_cache_fresh now s \<Longrightarrow>
     fetchActiveEruptions_try now outcome s = eruptions_refetch now outcome s"
  by (auto simp: eruption_cache_fresh_def fetchActiveEruptions_try_def split: option.splits)

lemma fetchActiveEruptions_returns:
  "\<exists>m. fst (fetchActiveEruptions now outcome s) = Inr m"
  by (auto simp: fetchActiveEruptions_def try_catch_def fetchActiveEruptions_catch_def
        split: prod.splits sum.splits option.splits)

lemma fetchActiveEruptions_failure:
  assumes "eruption_feed_fails outcome"
  shows "fst (fetchActiveEruptions now outcome s) =
           Inr (case eruptionCache s of Some c \<Rightarrow> eruptions c | None \<Rightarrow> [])"
    and "eruptionCache (snd (fetchActiveEruptions now outcome s)) = eruptionCache s"
proof -
  show "fst (fetchActiveEruptions now outcome s) =
           Inr (case eruptionCache s of Some c \<Rightarrow> eruptions c | None \<Rightarrow> [])"
  proof (cases "eruption_cache_fresh now s")
    case True
    then show ?thesis by (simp add: fetchActiveEruptions_fresh)
  next
    case False
    from eruptions_refetch_fails [OF assms, of now s] obtain e where
      "eruptions_refetch now outcome s = (Inl e, s\<lparr>requests := requests s @ [GVP_ERUPTIONS_URL]\<rparr>)"
      by blast
    with False show ?thesis
      by (simp add: fetchActiveEruptions_def fetchActiveEruptions_try_stale try_catch_def
            fetchActiveEruptions_catch_def split: option.splits)
  qed
  show "eruptionCache (snd (fetchActiveEruptions now outcome s)) = eruptionCache s"
  proof (cases "eruption_cache_fresh now s")
    case True
    then show ?thesis by (simp add: fetchActiveEruptions_fresh)
  next
    case False
    from eruptions_refetch_fails [OF assms, of now s] obtain e where
      "eruptions_refetch now outcome s = (Inl e, s\<lparr>requests := requests s @ [GVP_ERUPTIONS_URL]\<rparr>)"
      by blast
    with False show ?thesis
      by (simp add: fetchActiveEruptions_def fetchActiveEruptions_try_stale try_catch_def
            fetchActiveEruptions_catch_def split: option.splits)
  qed
qed

lemma sample_feed_loop: "eruptions_loop sample_feed [] = Inr sample_snapshot"
  by (simp add: sample_feed_def eruption_record_def Let_def Map_has_def String_num_eval
        sample_snapshot_def etna_entry_def)

section \<open>The eruption feed: properties\<close>

text \<open>
  Every failure that raises an exception in the \<open>try\<close> block is caught:
  \<open>fetchActiveEruptions\<close> never raises to its caller, returns the snapshot of the cache
  entry if there is one, whatever its age, and the empty map otherwise, and leaves the
  cache entry as it was.
\<close>

lemma fetchActiveEruptions_raising_failures:
  "(\<exists>m. fst (fetchActiveEruptions now outcome s) = Inr m) \<and>
   (eruption_feed_fails outcome \<longrightarrow>
      fst (fetchActiveEruptions now outcome s) =
        Inr (case eruptionCache s of Some c \<Rightarrow> eruptions c | None \<Rightarrow> []) \<and>
      eruptionCache (snd (fetchActiveEruptions now outcome s)) = eruptionCache s) \<and>
   (eruptionCache (snd (fetchActiveEruptions now outcome s)) \<noteq> eruptionCache s \<longrightarrow>
      \<not> eruption_feed_fails outcome \<and> \<not> eruption_cache_fresh now s)"
  using fetchActiveEruptions_returns [of now outcome s]
    fetchActiveEruptions_failure [of outcome now s]
    fetchActiveEruptions_fresh [of now s outcome]
  by auto

text \<open>
  Claim C5 says that on any fetch failure, a malformed payload included, the previous
  cached snapshot is returned and the cache entry is replaced only on success. A payload
  whose \<open>features\<close> member is the empty string is malformed, yet nothing in the
  \<open>try\<close> block raises: the loop runs zero times. With a cached snapshot holding Etna,
  24 hours old, \<open>fetchActiveEruptions\<close> returns the empty map and replaces the cache
  entry by the empty map with the current timestamp. The catalog path rejects the same
  payload by its \<open>Array.isArray\<close> test.
\<close>

theorem fetchActiveEruptions_empty_string_replaces_cache:
  "eruptionCache etna_cached_state =
     Some \<lparr>eruptions = [(''211060'', etna_entry)], timestamp_e = 0\<rparr> \<and>
   fst (fetchActiveEruptions 86400000 (HttpResponse 200 (Some (FeaturesString [])))
          etna_cached_state) = Inr [] \<and>
   eruptionCache (snd (fetchActiveEruptions 86400000 (HttpResponse 200 (Some (FeaturesString [])))
                         etna_cached_state)) =
     Some \<lparr>eruptions = [], timestamp_e = 86400000\<rparr> \<and>
   fst (catalog_refetch (sample_env (HttpResponse 200 (Some (FeaturesString [])))) empty_state) =
     Inl InvalidGeoJSON"
proof -
  let ?feed = "HttpResponse 200 (Some (FeaturesString [])) :: eruption_feature fetch_outcome"
  have stale: "\<not> eruption_cache_fresh 86400000 etna_cached_state"
    by (simp add: eruption_cache_fresh_def etna_cached_state_def ERUPTION_CACHE_DURATION_def)
  have "eruptions_refetch 86400000 ?feed etna_cached_state =
      (Inr [],
       etna_cached_state\<lparr>requests := requests etna_cached_state @ [GVP_ERUPTIONS_URL],
         eruptionCache := Some \<lparr>eruptions = [], timestamp_e = 86400000\<rparr>\<rparr>)"
    by (simp add: eruptions_refetch_def iterate_features_def response_ok_def Let_def)
  with stale have run: "fetchActiveEruptions 86400000 ?feed etna_cached_state =
      (Inr [],
       etna_cached_state\<lparr>requests := requests etna_cached_state @ [GVP_ERUPTIONS_URL],
         eruptionCache := Some \<lparr>eruptions = [], timestamp_e = 86400000\<rparr>\<rparr>)"
    by (simp add: fetchActiveEruptions_def fetchActiveEruptions_try_stale try_catch_def)
  have old: "eruptionCache etna_cached_state =
     Some \<lparr>eruptions = [(''211060'', etna_entry)], timestamp_e = 0\<rparr>"
    by (simp add: etna_cached_state_def)
  have cat: "fst (catalog_refetch (sample_env (HttpResponse 200 (Some (FeaturesString []))))
                empty_state) = Inl InvalidGeoJSON"
    by (simp add: catalog_refetch_def sample_env_def response_ok_def Let_def)
  from run old cat show ?thesis by simp
qed

text \<open>
  Claim C6. After a successful refresh the snapshot holds, for every identifier, exactly
  one entry when the feed has a continuing record with that identifier and none
  otherwise, and the entry is built from the first such record in delivery order.
  Records whose flag is not \<open>True\<close> never contribute.
\<close>

theorem eruptions_first_wins:
  assumes "\<not> eruption_cache_fresh now s"
    and "response_ok code"
    and "\<forall>f \<in> set fs. truthy_obj (properties_e f)"
  shows "\<exists>m. fetchActiveEruptions now (HttpResponse code (Some (FeatureCollection fs))) s =
             (Inr m, s\<lparr>requests := requests s @ [GVP_ERUPTIONS_URL],
                       eruptionCache := Some \<lparr>eruptions = m, timestamp_e = now\<rparr>\<rparr>) \<and>
           (\<forall>k. length (filter (\<lambda>e. fst e = k) m) = (if list_ex (continuing_for k) fs then 1 else 0) \<and>
                Map_get m k = first_continuing k fs)"
proof -
  from assms(3) have "\<not> list_ex (\<lambda>f. \<not> truthy_obj (properties_e f)) fs"
    by (simp add: list_ex_iff)
  then obtain m where m: "eruptions_loop fs [] = Inr m"
    using eruptions_loop_total by blast
  have run: "fetchActiveEruptions now (HttpResponse code (Some (FeatureCollection fs))) s =
             (Inr m, s\<lparr>requests := requests s @ [GVP_ERUPTIONS_URL],
                       eruptionCache := Some \<lparr>eruptions = m, timestamp_e = now\<rparr>\<rparr>)"
    using assms(1,2) m
    by (simp add: fetchActiveEruptions_def fetchActiveEruptions_try_stale
          eruptions_refetch_success try_catch_def)
  have "length (filter (\<lambda>e. fst e = k) m) = (if list_ex (continuing_for k) fs then 1 else 0) \<and>
        Map_get m k = first_continuing k fs" for k
  proof -
    from eruptions_loop_first_wins [OF m, of k]
    have d: "distinct (map fst m)" and look: "map_of m k = first_continuing k fs"
      by simp_all
    from count_key_distinct [OF d, of k] look first_continuing_None [of k fs]
    show ?thesis by (simp add: Map_get_def)
  qed
  with run show ?thesis by blast
qed

theorem eruptions_first_wins_witness:
  "\<not> eruption_cache_fresh 1000 empty_state \<and> response_ok 200 \<and>
   list_all (\<lambda>f. truthy_obj (properties_e f)) sample_feed \<and>
   (\<exists>m. fst (fetchActiveEruptions 1000 (HttpResponse 200 (Some (FeatureCollection sample_feed)))
             empty_state) = Inr m \<and>
        length (filter (\<lambda>e. fst e = ''211060'') m) = 1 \<and>
        Map_get m ''211060'' = Some etna_entry \<and>
        Map_get m ''263300'' = None)"
proof -
  have h1: "\<not> eruption_cache_fresh 1000 empty_state"
    by (simp add: eruption_cache_fresh_def empty_state_def)
  have h2: "response_ok 200"
    by (simp add: response_ok_def)
  have h3: "\<forall>f \<in> set sample_feed. truthy_obj (properties_e f)"
    by (simp add: sample_feed_def eruption_record_def)
  have e1: "list_ex (continuing_for ''211060'') sample_feed"
    by (simp add: sample_feed_def eruption_record_def continuing_for_def String_num_eval)
  have e2: "first_continuing ''211060'' sample_feed = Some etna_entry"
    by (simp add: first_continuing_def sample_feed_def eruption_record_def continuing_for_def
          eruption_entry_def etna_entry_def String_num_eval)
  have e3: "first_continuing ''263300'' sample_feed = None"
    by (simp add: first_continuing_def sample_feed_def eruption_record_def continuing_for_def
          String_num_eval)
  from eruptions_first_wins [OF h1 h2 h3] obtain m where
    run: "fetchActiveEruptions 1000 (HttpResponse 200 (Some (FeatureCollection sample_feed)))
            empty_state =
          (Inr m, empty_state\<lparr>requests := requests empty_state @ [GVP_ERUPTIONS_URL],
             eruptionCache := Some \<lparr>eruptions = m, timestamp_e = 1000\<rparr>\<rparr>)"
    and entries: "\<forall>k. length (filter (\<lambda>e. fst e = k) m) =
                       (if list_ex (continuing_for k) sample_feed then 1 else 0) \<and>
                     Map_get m k = first_continuing k sample_feed"
    by blast
  from entries e1 e2 e3 have
    "length (filter (\<lambda>e. fst e = ''211060'') m) = 1 \<and>
     Map_get m ''211060'' = Some etna_entry \<and> Map_get m ''263300'' = None"
    by simp
  with run h1 h2 h3 show ?thesis by (simp add: list_all_iff)
qed

text \<open>
  Claim C9. The refresh handler clears the eruption cache whatever its timestamp, and
  touches neither the catalog cache nor the network; the next \<open>fetchActiveEruptions\<close>
  then issues a request to the eruption feed, whereas a call that finds an entry younger
  than 30 minutes issues none.
\<close>

theorem invalidate_forces_refetch:
  "eruptionCache (snd (POST s)) = None \<and>
   cachedData (snd (POST s)) = cachedData s \<and>
   requests (snd (POST s)) = requests s \<and>
   requests (snd (fetchActiveEruptions now outcome (snd (POST s)))) =
     requests s @ [GVP_ERUPTIONS_URL] \<and>
   (eruption_cache_fresh now s \<longrightarrow>
      requests (snd (fetchActiveEruptions now outcome s)) = requests s)"
proof -
  let ?s = "invalidateEruptionCache s"
  have stale: "\<not> eruption_cache_fresh now ?s"
    by (simp add: eruption_cache_fresh_def invalidateEruptionCache_def)
  have "requests (snd (fetchActiveEruptions now outcome ?s)) = requests ?s @ [GVP_ERUPTIONS_URL]"
    using eruptions_refetch_requests [of now outcome ?s]
    by (auto simp: fetchActiveEruptions_def fetchActiveEruptions_try_stale [OF stale]
          try_catch_def fetchActiveEruptions_catch_def
          split: prod.splits sum.splits option.splits)
  then show ?thesis
    by (simp add: POST_def invalidateEruptionCache_def fetchActiveEruptions_fresh)
qed

theorem invalidate_forces_refetch_witness:
  "eruption_cache_fresh 60000 etna_cached_state \<and>
   requests (snd (fetchActiveEruptions 60000 NetworkError etna_cached_state)) = [] \<and>
   requests (snd (fetchActiveEruptions 60000 NetworkError (snd (POST etna_cached_state)))) =
     [GVP_ERUPTIONS_URL] \<and>
   eruptionCache (snd (POST etna_cached_state)) = None"
  using invalidate_forces_refetch [of etna_cached_state 60000 NetworkError]
  by (simp add: eruption_cache_fresh_def etna_cached_state_def ERUPTION_CACHE_DURATION_def)

section \<open>The volcano catalog: lemmas\<close>

lemma feature_retained_iff: "feature_retained f \<longleftrightarrow> \<not> lacks_required_member f"
  by (auto simp: feature_retained_def lacks_required_member_def split: js.splits)

lemma parse_retained:
  assumes "feature_retained f"
  shows "\<exists>v. parseGeoJSONFeature active f = Inr v"
  using assms
  by (auto simp: feature_retained_def parseGeoJSONFeature_def Let_def split: js.splits)

lemma parse_fields:
  assumes "parseGeoJSONFeature active f = Inr v"
  shows "vei v = None"
    and "status v = determineStatus active (id_v v)"
    and "feature_number f = Some n \<Longrightarrow> id_v v = String_num n"
    and "\<exists>n. feature_number f = Some n"
  using assms
  by (auto simp: parseGeoJSONFeature_def feature_number_def Let_def split: js.splits)

lemma map_parse_iff:
  "map_parse active fs = Inr vs \<longleftrightarrow> list_all2 (\<lambda>f v. parseGeoJSONFeature active f = Inr v) fs vs"
proof (induction fs arbitrary: vs)
  case Nil
  then show ?case by auto
next
  case (Cons f fs)
  show ?case
  proof (cases "parseGeoJSONFeature active f")
    case (Inl e)
    then show ?thesis by (auto simp: list_all2_Cons1)
  next
    case (Inr v)
    then show ?thesis
      using Cons.IH by (cases "map_parse active fs") (auto simp: list_all2_Cons1)
  qed
qed

lemma map_parse_retained:
  "\<forall>f \<in> set fs. feature_retained f \<Longrightarrow> \<exists>vs. map_parse active fs = Inr vs"
proof (induction fs)
  case Nil
  then show ?case by simp
next
  case (Cons f fs)
  then obtain v vs where "parseGeoJSONFeature active f = Inr v" "map_parse active fs = Inr vs"
    using parse_retained [of f active] by auto
  then show ?case by simp
qed

lemma map_parse_ids:
  assumes "map_parse active fs = Inr vs"
  shows "map (Some \<circ> id_v) vs = map (map_option String_num \<circ> feature_number) fs"
proof -
  from assms have "list_all2 (\<lambda>f v. parseGeoJSONFeature active f = Inr v) fs vs"
    by (simp add: map_parse_iff)
  then show ?thesis
  proof (induction rule: list_all2_induct)
    case Nil
    then show ?case by simp
  next
    case (Cons f fs v vs)
    from parse_fields(4) [OF Cons(1)] obtain n where n: "feature_number f = Some n" by blast
    with parse_fields(3) [OF Cons(1) n] Cons show ?case by simp
  qed
qed

lemma map_parse_vei:
  assumes "map_parse active fs = Inr vs" and "v \<in> set vs"
  shows "vei v = None"
proof -
  from assms(1) have "list_all2 (\<lambda>f v. parseGeoJSONFeature active f = Inr v) fs vs"
    by (simp add: map_parse_iff)
  with assms(2) obtain f where "parseGeoJSONFeature active f = Inr v"
    by (auto simp: list_all2_conv_all_nth in_set_conv_nth)
  then show ?thesis by (rule parse_fields(1))
qed

lemma map_parse_length: "map_parse active fs = Inr vs \<Longrightarrow> length vs = length fs"
  by (simp add: map_parse_iff list_all2_lengthD)

subsection \<open>The sort\<close>

lemma set_insert_by: "set (insert_by cmp x ys) = insert x (set ys)"
  by (induction ys) auto

lemma length_insert_by: "length (insert_by cmp x ys) = Suc (length ys)"
  by (induction ys) auto

lemma set_Array_sort: "set (Array_sort cmp xs) = set xs"
  by (induction xs) (auto simp: Array_sort_def set_insert_by)

lemma length_Array_sort: "length (Array_sort cmp xs) = length xs"
  by (induction xs) (auto simp: Array_sort_def length_insert_by)

lemma distinct_map_insert_by:
  "distinct (map f (insert_by cmp x ys)) \<longleftrightarrow> f x \<notin> f ` set ys \<and> distinct (map f ys)"
  by (induction ys) (auto simp: set_insert_by)

lemma distinct_map_Array_sort: "distinct (map f (Array_sort cmp xs)) \<longleftrightarrow> distinct (map f xs)"
proof (induction xs)
  case Nil
  then show ?case by (simp add: Array_sort_def)
next
  case (Cons x xs)
  have "set (foldr (insert_by cmp) xs []) = set xs"
    using set_Array_sort [of cmp xs] by (simp add: Array_sort_def)
  with Cons show ?case
    by (simp add: Array_sort_def distinct_map_insert_by)
qed

lemma count_insert_by:
  "length (filter P (insert_by cmp x ys)) = length (filter P (x # ys))"
  by (induction ys) auto

lemma count_Array_sort: "length (filter P (Array_sort cmp xs)) = length (filter P xs)"
proof (induction xs)
  case Nil
  then show ?case by (simp add: Array_sort_def)
next
  case (Cons x xs)
  then have "length (filter P (foldr (insert_by cmp) xs [])) = length (filter P xs)"
    by (simp add: Array_sort_def)
  then show ?case by (simp add: Array_sort_def count_insert_by)
qed

lemma count_map_eq:
  assumes "map f xs = map g ys"
  shows "length (filter (\<lambda>x. f x = k) xs) = length (filter (\<lambda>y. g y = k) ys)"
proof -
  have "length (filter (\<lambda>x. f x = k) xs) = length (filter (\<lambda>z. z = k) (map f xs))"
    by (simp add: filter_map comp_def)
  also have "\<dots> = length (filter (\<lambda>z. z = k) (map g ys))" by (simp only: assms)
  also have "\<dots> = length (filter (\<lambda>y. g y = k) ys)" by (simp add: filter_map comp_def)
  finally show ?thesis .
qed

lemma sorted_insert_by:
  assumes total: "\<And>a b. cmp a b \<le> 0 \<or> cmp b a \<le> 0"
    and trans: "\<And>a b c. cmp a b \<le> 0 \<Longrightarrow> cmp b c \<le> 0 \<Longrightarrow> cmp a c \<le> 0"
    and "sorted_wrt (\<lambda>a b. cmp a b \<le> 0) ys"
  shows "sorted_wrt (\<lambda>a b. cmp a b \<le> 0) (insert_by cmp x ys)"
  using assms(3)
proof (induction ys)
  case Nil
  then show ?case by simp
next
  case (Cons y ys)
  show ?case
  proof (cases "cmp x y \<le> 0")
    case True
    with Cons.prems trans have "\<forall>z \<in> set ys. cmp x z \<le> 0" by auto
    with True Cons.prems show ?thesis by simp
  next
    case False
    with total have "cmp y x \<le> 0" by blast
    with False Cons show ?thesis by (auto simp: set_insert_by)
  qed
qed

lemma sorted_Array_sort:
  assumes total: "\<And>a b. cmp a b \<le> 0 \<or> cmp b a \<le> 0"
    and trans: "\<And>a b c. cmp a b \<le> 0 \<Longrightarrow> cmp b c \<le> 0 \<Longrightarrow> cmp a c \<le> 0"
  shows "sorted_wrt (\<lambda>a b. cmp a b \<le> 0) (Array_sort cmp xs)"
proof (induction xs)
  case Nil
  then show ?case by (simp add: Array_sort_def)
next
  case (Cons x xs)
  then have "sorted_wrt (\<lambda>a b. cmp a b \<le> 0) (foldr (insert_by cmp) xs [])"
    by (simp add: Array_sort_def)
  from sorted_insert_by [where cmp = cmp and x = x, OF total trans this]
  show ?case by (simp add: Array_sort_def)
qed

lemma compare_volcanoes_le:
  "compare_volcanoes lc a b \<le> 0 \<longleftrightarrow> by_priority_then_name lc a b"
  by (auto simp: compare_volcanoes_def by_priority_then_name_def Let_def)

subsection \<open>A comparison by character codes is a consistent comparator\<close>

lemma codeunit_compare_total: "codeunit_compare a b \<le> 0 \<or> codeunit_compare b a \<le> 0"
  by (induction a b rule: codeunit_compare.induct) auto

lemma codeunit_compare_Cons_le:
  "codeunit_compare (x # xs) (y # ys) \<le> 0 \<longleftrightarrow>
     (of_char x :: nat) < of_char y \<or>
     ((of_char x :: nat) = of_char y \<and> codeunit_compare xs ys \<le> 0)"
  by auto

lemma codeunit_compare_trans:
  "codeunit_compare a b \<le> 0 \<Longrightarrow> codeunit_compare b c \<le> 0 \<Longrightarrow> codeunit_compare a c \<le> 0"
proof (induction a arbitrary: b c)
  case Nil
  then show ?case by (cases c) simp_all
next
  case (Cons x xs)
  from Cons.prems(1) obtain y ys where b: "b = y # ys" by (cases b) auto
  from Cons.prems(2) b obtain z zs where c: "c = z # zs" by (cases c) auto
  from Cons.prems b c
  have xy: "(of_char x :: nat) < of_char y \<or>
            ((of_char x :: nat) = of_char y \<and> codeunit_compare xs ys \<le> 0)"
    and yz: "(of_char y :: nat) < of_char z \<or>
            ((of_char y :: nat) = of_char z \<and> codeunit_compare ys zs \<le> 0)"
    by (simp_all only: codeunit_compare_Cons_le)
  have "(of_char x :: nat) < of_char z \<or>
        ((of_char x :: nat) = of_char z \<and> codeunit_compare xs zs \<le> 0)"
    using xy yz Cons.IH [of ys zs] by auto
  then show ?case unfolding c by (simp only: codeunit_compare_Cons_le)
qed

lemma codeunit_compare_consistent: "consistent_comparator codeunit_compare"
  unfolding consistent_comparator_def
proof (intro conjI allI impI)
  fix a b
  show "codeunit_compare a b \<le> 0 \<or> codeunit_compare b a \<le> 0"
    by (rule codeunit_compare_total)
next
  fix a b c
  assume "codeunit_compare a b \<le> 0 \<and> codeunit_compare b c \<le> 0"
  then show "codeunit_compare a c \<le> 0"
    using codeunit_compare_trans by blast
qed

lemma by_priority_total:
  assumes "\<forall>a b. lc a b \<le> 0 \<or> lc b a \<le> 0"
  shows "compare_volcanoes lc a b \<le> 0 \<or> compare_volcanoes lc b a \<le> 0"
  using assms by (auto simp: compare_volcanoes_def Let_def)

lemma by_priority_trans:
  assumes "\<forall>a b c. lc a b \<le> 0 \<and> lc b c \<le> 0 \<longrightarrow> lc a c \<le> 0"
    and "compare_volcanoes lc a b \<le> 0" and "compare_volcanoes lc b c \<le> 0"
  shows "compare_volcanoes lc a c \<le> 0"
proof -
  from assms(2,3) have ab: "by_priority_then_name lc a b" and bc: "by_priority_then_name lc b c"
    by (simp_all add: compare_volcanoes_le)
  have "by_priority_then_name lc a c"
  proof (cases "statusPriority (status a) < statusPriority (status c)")
    case True
    then show ?thesis by (simp add: by_priority_then_name_def)
  next
    case False
    with ab bc have eq: "statusPriority (status a) = statusPriority (status b)"
        "statusPriority (status b) = statusPriority (status c)"
      and "lc (name a) (name b) \<le> 0" "lc (name b) (name c) \<le> 0"
      by (auto simp: by_priority_then_name_def)
    with assms(1) have "lc (name a) (name c) \<le> 0" by blast
    with eq show ?thesis by (simp add: by_priority_then_name_def)
  qed
  then show ?thesis by (simp add: compare_volcanoes_le)
qed

section \<open>The GET handler: lemmas\<close>

lemma fetchActiveEruptions_cachedData:
  "cachedData (snd (fetchActiveEruptions now outcome s)) = cachedData s"
  by (auto simp: fetchActiveEruptions_def fetchActiveEruptions_try_def try_catch_def
        fetchActiveEruptions_catch_def eruptions_refetch_def Let_def
        split: prod.splits sum.splits option.splits fetch_outcome.splits payload.splits if_splits)

lemma catalog_refetch_cachedData: "cachedData (snd (catalog_refetch w s)) = cachedData s"
  by (auto simp: catalog_refetch_def Let_def
        split: sum.splits option.splits fetch_outcome.splits payload.splits)

lemma catalog_refetch_fails:
  "catalog_feed_fails (catalog_feed w) \<Longrightarrow> \<exists>e. fst (catalog_refetch w s) = Inl e"
  by (auto simp: catalog_feed_fails_def catalog_refetch_def Let_def
        split: fetch_outcome.splits option.splits payload.splits)

lemma catalog_refetch_success:
  assumes "catalog_feed w = HttpResponse code (Some (FeatureCollection fs))"
    and "response_ok code"
  shows "\<exists>parsed. map_parse (activeEruptions s) (filter feature_retained fs) = Inr parsed \<and>
           fst (catalog_refetch w s) =
             Inr (Array_sort (compare_volcanoes (localeCompare w)) parsed)"
proof -
  obtain parsed where "map_parse (activeEruptions s) (filter feature_retained fs) = Inr parsed"
    using map_parse_retained [of "filter feature_retained fs" "activeEruptions s"] by auto
  with assms show ?thesis
    by (auto simp: catalog_refetch_def Let_def)
qed

lemma catalog_refetch_Inr:
  assumes "fst (catalog_refetch w s) = Inr vs"
  shows "\<exists>code fs parsed.
           catalog_feed w = HttpResponse code (Some (FeatureCollection fs)) \<and> response_ok code \<and>
           map_parse (activeEruptions s) (filter feature_retained fs) = Inr parsed \<and>
           vs = Array_sort (compare_volcanoes (localeCompare w)) parsed"
  using assms
  by (auto simp: catalog_refetch_def Let_def
        split: fetch_outcome.splits option.splits payload.splits sum.splits if_splits)

lemma fetchVolcanoData_try_eq:
  "\<exists>active s1. fetchActiveEruptions (now_eruptions w) (eruption_feed w) s = (Inr active, s1) \<and>
     fetchVolcanoData_try w s = catalog_refetch w (s1\<lparr>activeEruptions := active\<rparr>)"
proof -
  obtain r s1 where r: "fetchActiveEruptions (now_eruptions w) (eruption_feed w) s = (r, s1)"
    by (cases "fetchActiveEruptions (now_eruptions w) (eruption_feed w) s")
  with fetchActiveEruptions_returns [of "now_eruptions w" "eruption_feed w" s]
  obtain active where "r = Inr active" by auto
  with r show ?thesis by (simp add: fetchVolcanoData_try_def)
qed

lemma fetchVolcanoData_try_cachedData:
  "cachedData (snd (fetchVolcanoData_try w s)) = cachedData s"
proof -
  from fetchVolcanoData_try_eq [of w s] obtain active s1 where
    e: "fetchActiveEruptions (now_eruptions w) (eruption_feed w) s = (Inr active, s1)"
    and t: "fetchVolcanoData_try w s = catalog_refetch w (s1\<lparr>activeEruptions := active\<rparr>)"
    by blast
  from e fetchActiveEruptions_cachedData [of "now_eruptions w" "eruption_feed w" s]
  have "cachedData s1 = cachedData s" by simp
  with t show ?thesis by (simp add: catalog_refetch_cachedData)
qed

lemma fetchVolcanoData_try_fails:
  "catalog_feed_fails (catalog_feed w) \<Longrightarrow> \<exists>e. fst (fetchVolcanoData_try w s) = Inl e"
  using fetchVolcanoData_try_eq [of w s] catalog_refetch_fails by force

lemma fetchVolcanoData_try_success:
  assumes "catalog_feed w = HttpResponse code (Some (FeatureCollection fs))"
    and "response_ok code"
  shows "\<exists>active parsed. map_parse active (filter feature_retained fs) = Inr parsed \<and>
           fst (fetchVolcanoData_try w s) =
             Inr (Array_sort (compare_volcanoes (localeCompare w)) parsed)"
proof -
  from fetchVolcanoData_try_eq [of w s] obtain active s1 where
    t: "fetchVolcanoData_try w s = catalog_refetch w (s1\<lparr>activeEruptions := active\<rparr>)"
    by blast
  from catalog_refetch_success [OF assms, of "s1\<lparr>activeEruptions := active\<rparr>"] t
  show ?thesis by auto
qed

lemma fetchVolcanoData_try_Inr:
  assumes "fst (fetchVolcanoData_try w s) = Inr vs"
  shows "\<exists>code fs active parsed.
           catalog_feed w = HttpResponse code (Some (FeatureCollection fs)) \<and> response_ok code \<and>
           map_parse active (filter feature_retained fs) = Inr parsed \<and>
           vs = Array_sort (compare_volcanoes (localeCompare w)) parsed"
proof -
  from fetchVolcanoData_try_eq [of w s] obtain active s1 where
    t: "fetchVolcanoData_try w s = catalog_refetch w (s1\<lparr>activeEruptions := active\<rparr>)"
    by blast
  with assms have "fst (catalog_refetch w (s1\<lparr>activeEruptions := active\<rparr>)) = Inr vs" by simp
  from catalog_refetch_Inr [OF this] show ?thesis by auto
qed

lemma fetchVolcanoData_result:
  "fst (fetchVolcanoData w s) =
     (case fst (fetchVolcanoData_try w s) of
        Inl e \<Rightarrow> Inr getFallbackVolcanoData
      | Inr vs \<Rightarrow> Inr vs)"
  and "cachedData (snd (fetchVolcanoData w s)) = cachedData s"
  using fetchVolcanoData_try_cachedData [of w s]
  by (auto simp: fetchVolcanoData_def try_catch_def fetchVolcanoData_catch_def
        split: prod.splits sum.splits)

lemma GET_fresh:
  assumes "cachedData s = Some c" and "now_GET w - timestamp c < CACHE_DURATION"
  shows "GET w s =
     (Inr \<lparr>http_status = 200, volcanoes_r = volcanoes c, lastUpdated = timestamp c,
           totalCount = length (volcanoes c)\<rparr>, s)"
  using assms by (simp add: GET_def GET_try_def try_catch_def)

lemma GET_miss:
  assumes "\<not> catalog_cache_fresh (now_GET w) s"
    and "fst (fetchVolcanoData w s) = Inr vs"
  shows "fst (GET w s) =
           Inr \<lparr>http_status = 200, volcanoes_r = vs, lastUpdated = now_GET w,
                totalCount = length vs\<rparr>"
    and "cachedData (snd (GET w s)) = Some \<lparr>volcanoes = vs, timestamp = now_GET w\<rparr>"
proof -
  from assms(1) have "GET_try w s = GET_refresh w s"
    by (auto simp: catalog_cache_fresh_def GET_try_def split: option.splits)
  moreover obtain s1 where "fetchVolcanoData w s = (Inr vs, s1)"
    using assms(2) by (cases "fetchVolcanoData w s") auto
  ultimately have "GET w s =
      (Inr \<lparr>http_status = 200, volcanoes_r = vs, lastUpdated = now_GET w, totalCount = length vs\<rparr>,
       s1\<lparr>cachedData := Some \<lparr>volcanoes = vs, timestamp = now_GET w\<rparr>\<rparr>)"
    by (simp add: GET_def GET_refresh_def try_catch_def)
  then show "fst (GET w s) =
           Inr \<lparr>http_status = 200, volcanoes_r = vs, lastUpdated = now_GET w,
                totalCount = length vs\<rparr>"
    and "cachedData (snd (GET w s)) = Some \<lparr>volcanoes = vs, timestamp = now_GET w\<rparr>"
    by simp_all
qed

lemma GET_failure:
  assumes "\<not> catalog_cache_fresh (now_GET w) s"
    and "catalog_feed_fails (catalog_feed w)"
  shows "fst (GET w s) =
           Inr \<lparr>http_status = 200, volcanoes_r = getFallbackVolcanoData, lastUpdated = now_GET w,
                totalCount = 5\<rparr>"
    and "cachedData (snd (GET w s)) =
           Some \<lparr>volcanoes = getFallbackVolcanoData, timestamp = now_GET w\<rparr>"
proof -
  from fetchVolcanoData_try_fails [OF assms(2), of s]
  have f: "fst (fetchVolcanoData w s) = Inr getFallbackVolcanoData"
    by (auto simp: fetchVolcanoData_result)
  have "length getFallbackVolcanoData = 5" by (simp add: getFallbackVolcanoData_def)
  with GET_miss [OF assms(1) f]
  show "fst (GET w s) =
           Inr \<lparr>http_status = 200, volcanoes_r = getFallbackVolcanoData, lastUpdated = now_GET w,
                totalCount = 5\<rparr>"
    and "cachedData (snd (GET w s)) =
           Some \<lparr>volcanoes = getFallbackVolcanoData, timestamp = now_GET w\<rparr>"
    by simp_all
qed

lemma fallback_all_erupting: "\<forall>v \<in> set getFallbackVolcanoData. status v = Erupting"
  by (simp add: getFallbackVolcanoData_def)

lemma fallback_all_vei: "\<forall>v \<in> set getFallbackVolcanoData. vei v \<noteq> None"
  by (simp add: getFallbackVolcanoData_def)

lemma retained_numbers_iff:
  "distinct (map (map_option String_num \<circ> feature_number) fs) \<longleftrightarrow>
   distinct (map feature_number fs)"
proof -
  have inj: "inj (map_option String_num)"
    by (rule option.inj_map) (auto intro: injI String_num_inj)
  have "inj_on (map_option String_num) (set (map feature_number fs))"
    by (rule inj_on_subset [OF inj]) simp
  then have "distinct (map (map_option String_num) (map feature_number fs)) \<longleftrightarrow>
        distinct (map feature_number fs)"
    by (simp only: distinct_map simp_thms)
  then show ?thesis by simp
qed

lemma distinct_ids_iff_Some:
  "distinct (map (Some \<circ> id_v) vs) \<longleftrightarrow> distinct (map id_v vs)"
  by (simp add: distinct_map inj_on_def comp_def)

lemma try_vei:
  assumes "fst (fetchVolcanoData_try w s) = Inr vs" and "v \<in> set vs"
  shows "vei v = None"
proof -
  from fetchVolcanoData_try_Inr [OF assms(1)] obtain active fs parsed where
    parsed: "map_parse active (filter feature_retained fs) = Inr parsed"
    and vs: "vs = Array_sort (compare_volcanoes (localeCompare w)) parsed"
    by blast
  from assms(2) vs have "v \<in> set parsed" by (simp add: set_Array_sort)
  with parsed show ?thesis by (rule map_parse_vei)
qed

lemma fetchVolcanoData_vei:
  assumes "fst (fetchVolcanoData w s) = Inr vs"
  shows "vei_only_in_fallback vs"
proof (cases "fst (fetchVolcanoData_try w s)")
  case (Inl e)
  with assms have "vs = getFallbackVolcanoData" by (simp add: fetchVolcanoData_result)
  then show ?thesis by (simp add: vei_only_in_fallback_def list_all_iff)
next
  case (Inr vs')
  with assms have "vs' = vs" by (simp add: fetchVolcanoData_result)
  with Inr try_vei [of w s vs] show ?thesis
    by (simp add: vei_only_in_fallback_def list_all_iff)
qed

lemma fetchVolcanoData_returns: "\<exists>vs. fst (fetchVolcanoData w s) = Inr vs"
  by (cases "fst (fetchVolcanoData_try w s)") (simp_all add: fetchVolcanoData_result)

lemma GET_keeps_vei_invariant:
  assumes "cache_vei_ok s"
  shows "(\<exists>r. fst (GET w s) = Inr r \<and> vei_only_in_fallback (volcanoes_r r)) \<and>
         cache_vei_ok (snd (GET w s))"
proof (cases "catalog_cache_fresh (now_GET w) s")
  case True
  then obtain c where c: "cachedData s = Some c" "now_GET w - timestamp c < CACHE_DURATION"
    by (auto simp: catalog_cache_fresh_def split: option.splits)
  from assms c(1) have "vei_only_in_fallback (volcanoes c)" by (simp add: cache_vei_ok_def)
  with GET_fresh [OF c] assms show ?thesis by simp
next
  case False
  from fetchVolcanoData_returns [of w s] obtain vs where vs: "fst (fetchVolcanoData w s) = Inr vs"
    by blast
  from fetchVolcanoData_vei [OF vs] GET_miss [OF False vs] show ?thesis
    by (simp add: cache_vei_ok_def)
qed

subsection \<open>The sample inputs, evaluated\<close>

lemma sample_eruptions:
  "fst (fetchActiveEruptions (now_eruptions (sample_env feed)) (eruption_feed (sample_env feed))
      empty_state) = Inr sample_snapshot"
  using sample_feed_loop
  by (simp add: fetchActiveEruptions_def fetchActiveEruptions_try_def try_catch_def
        eruptions_refetch_def iterate_features_def sample_env_def empty_state_def
        response_ok_def Let_def)

lemma sample_try:
  "fst (fetchVolcanoData_try (sample_env (HttpResponse 200 (Some (FeatureCollection fs)))) empty_state) =
     (case map_parse sample_snapshot (filter feature_retained fs) of
        Inl e \<Rightarrow> Inl e
      | Inr parsed \<Rightarrow> Inr (Array_sort (compare_volcanoes codeunit_compare) parsed))"
proof -
  let ?w = "sample_env (HttpResponse 200 (Some (FeatureCollection fs)))"
  from fetchVolcanoData_try_eq [of ?w empty_state] obtain active s1 where
    e: "fetchActiveEruptions (now_eruptions ?w) (eruption_feed ?w) empty_state = (Inr active, s1)"
    and t: "fetchVolcanoData_try ?w empty_state = catalog_refetch ?w (s1\<lparr>activeEruptions := active\<rparr>)"
    by blast
  from e sample_eruptions [of "HttpResponse 200 (Some (FeatureCollection fs))"]
  have "active = sample_snapshot" by simp
  with t show ?thesis
    by (simp add: catalog_refetch_def sample_env_def response_ok_def Let_def split: sum.splits)
qed

lemma parse_sample:
  "parseGeoJSONFeature sample_snapshot (volcano_feature n nm) =
     Inr (parsed_volcano (String_num n) nm (determineStatus sample_snapshot (String_num n)))"
  by (simp add: parseGeoJSONFeature_def volcano_feature_def parsed_volcano_def Let_def String_num_eval)

lemma retained_sample: "feature_retained (volcano_feature n nm) \<longleftrightarrow> nm \<noteq> []"
  by (simp add: feature_retained_def volcano_feature_def)

lemma status_211060: "determineStatus sample_snapshot ''211060'' = Erupting"
  by (simp add: determineStatus_def Map_has_def sample_snapshot_def)

lemma duplicate_parse:
  "map_parse sample_snapshot (filter feature_retained duplicate_catalog) =
     Inr [parsed_volcano ''211060'' ''Etna (summit)'' Erupting,
          parsed_volcano ''211060'' ''Etna'' Erupting]"
proof -
  have n: "String_num 211060 = ''211060''" by (simp add: String_num_eval)
  show ?thesis
    by (simp add: duplicate_catalog_def retained_sample parse_sample n status_211060)
qed

lemma duplicate_sorted:
  "Array_sort (compare_volcanoes codeunit_compare)
     [parsed_volcano ''211060'' ''Etna (summit)'' Erupting,
      parsed_volcano ''211060'' ''Etna'' Erupting] =
     [parsed_volcano ''211060'' ''Etna'' Erupting,
      parsed_volcano ''211060'' ''Etna (summit)'' Erupting]"
  by (simp add: Array_sort_def compare_volcanoes_def parsed_volcano_def statusPriority_def)

lemma mixed_parse:
  "map_parse sample_snapshot (filter feature_retained mixed_catalog) =
     Inr [parsed_volcano ''999999'' ''Zeta'' Normal,
          parsed_volcano ''264020'' ''Krakatau'' Watch,
          parsed_volcano ''300150'' ''Alpha'' Erupting]"
proof -
  have n: "String_num 999999 = ''999999''" "String_num 264020 = ''264020''"
    "String_num 300150 = ''300150''"
    by (simp_all add: String_num_eval)
  have st: "determineStatus sample_snapshot ''999999'' = Normal"
    "determineStatus sample_snapshot ''264020'' = Watch"
    "determineStatus sample_snapshot ''300150'' = Erupting"
    by (simp_all add: determineStatus_def Map_has_def sample_snapshot_def
          WARNING_VOLCANO_IDS_def WATCH_VOLCANO_IDS_def ADVISORY_VOLCANO_IDS_def)
  show ?thesis
    by (simp add: mixed_catalog_def retained_sample parse_sample n st)
qed

lemma mixed_sorted:
  "Array_sort (compare_volcanoes codeunit_compare)
     [parsed_volcano ''999999'' ''Zeta'' Normal,
      parsed_volcano ''264020'' ''Krakatau'' Watch,
      parsed_volcano ''300150'' ''Alpha'' Erupting] =
     [parsed_volcano ''300150'' ''Alpha'' Erupting,
      parsed_volcano ''264020'' ''Krakatau'' Watch,
      parsed_volcano ''999999'' ''Zeta'' Normal]"
  by (simp add: Array_sort_def compare_volcanoes_def parsed_volcano_def statusPriority_def)

lemma mixed_try:
  "fst (fetchVolcanoData_try
          (sample_env (HttpResponse 200 (Some (FeatureCollection mixed_catalog)))) empty_state) =
     Inr [parsed_volcano ''300150'' ''Alpha'' Erupting,
          parsed_volcano ''264020'' ''Krakatau'' Watch,
          parsed_volcano ''999999'' ''Zeta'' Normal]"
  by (simp only: sample_try mixed_parse mixed_sorted sum.case)

section \<open>The volcano catalog: properties\<close>

text \<open>
  Claim C1. When the catalog cache is absent or at least six hours old and the catalog
  request fails (network error, status outside 200..299, a body that is not JSON, a
  payload without a features array), the catch block of \<open>fetchVolcanoData\<close> turns the
  failure into a normal return of the hardcoded fallback list, and the GET handler
  answers with status 200 and exactly that list: five entries, each with status
  erupting, whatever the cache held.
\<close>

theorem GET_fallback_on_failure:
  assumes "\<not> catalog_cache_fresh (now_GET w) s"
    and "catalog_feed_fails (catalog_feed w)"
  shows "fst (fetchVolcanoData w s) = Inr getFallbackVolcanoData \<and>
         fst (GET w s) =
           Inr \<lparr>http_status = 200, volcanoes_r = getFallbackVolcanoData,
                lastUpdated = now_GET w, totalCount = 5\<rparr> \<and>
         (\<exists>r. fst (GET w s) = Inr r \<and> volcanoes_r r = getFallbackVolcanoData \<and>
              length (volcanoes_r r) = 5 \<and> (\<forall>v \<in> set (volcanoes_r r). status v = Erupting))"
proof -
  have len: "length getFallbackVolcanoData = 5" by (simp add: getFallbackVolcanoData_def)
  from fetchVolcanoData_try_fails [OF assms(2), of s]
  have f: "fst (fetchVolcanoData w s) = Inr getFallbackVolcanoData"
    by (auto simp: fetchVolcanoData_result)
  note g = GET_failure(1) [OF assms]
  from g len fallback_all_erupting
  have "\<exists>r. fst (GET w s) = Inr r \<and> volcanoes_r r = getFallbackVolcanoData \<and>
          length (volcanoes_r r) = 5 \<and> (\<forall>v \<in> set (volcanoes_r r). status v = Erupting)"
    by simp
  with f g show ?thesis by (intro conjI)
qed

theorem GET_fallback_on_failure_witness:
  "\<not> catalog_cache_fresh (now_GET (sample_env NetworkError)) old_catalog_state \<and>
   catalog_feed_fails (catalog_feed (sample_env NetworkError)) \<and>
   cachedData old_catalog_state =
     Some \<lparr>volcanoes = [parsed_volcano ''211060'' ''Etna'' Normal], timestamp = 0\<rparr> \<and>
   fst (fetchVolcanoData (sample_env NetworkError) old_catalog_state) =
     Inr getFallbackVolcanoData \<and>
   fst (GET (sample_env NetworkError) old_catalog_state) =
     Inr \<lparr>http_status = 200, volcanoes_r = getFallbackVolcanoData,
          lastUpdated = 30000000, totalCount = 5\<rparr> \<and>
   (\<exists>r. fst (GET (sample_env NetworkError) old_catalog_state) = Inr r \<and>
        volcanoes_r r = getFallbackVolcanoData \<and> length (volcanoes_r r) = 5 \<and>
        (\<forall>v \<in> set (volcanoes_r r). status v = Erupting))"
proof -
  let ?w = "sample_env NetworkError"
  have h1: "\<not> catalog_cache_fresh (now_GET ?w) old_catalog_state"
    by (simp add: catalog_cache_fresh_def sample_env_def old_catalog_state_def CACHE_DURATION_def)
  have h2: "catalog_feed_fails (catalog_feed ?w)"
    by (simp add: catalog_feed_fails_def sample_env_def)
  have c: "cachedData old_catalog_state =
     Some \<lparr>volcanoes = [parsed_volcano ''211060'' ''Etna'' Normal], timestamp = 0\<rparr>"
    by (simp add: old_catalog_state_def)
  have now: "now_GET ?w = 30000000" by (simp add: sample_env_def)
  note t = GET_fallback_on_failure [OF h1 h2]
  from t have f: "fst (fetchVolcanoData ?w old_catalog_state) = Inr getFallbackVolcanoData"
    by (rule conjunct1)
  from t have g: "fst (GET ?w old_catalog_state) =
           Inr \<lparr>http_status = 200, volcanoes_r = getFallbackVolcanoData,
                lastUpdated = now_GET ?w, totalCount = 5\<rparr>"
    by (rule conjunct2 [THEN conjunct1])
  from t have e: "\<exists>r. fst (GET ?w old_catalog_state) = Inr r \<and>
        volcanoes_r r = getFallbackVolcanoData \<and> length (volcanoes_r r) = 5 \<and>
        (\<forall>v \<in> set (volcanoes_r r). status v = Erupting)"
    by (rule conjunct2 [THEN conjunct2])
  from g have g': "fst (GET ?w old_catalog_state) =
     Inr \<lparr>http_status = 200, volcanoes_r = getFallbackVolcanoData,
          lastUpdated = 30000000, totalCount = 5\<rparr>"
    by (simp only: now)
  show ?thesis
    by (intro conjI) (rule h1 h2 c f g' e)+
qed

text \<open>
  Claim C2 says that a failed catalog request leaves the cached catalog entry as it
  was. The handler assigns the cache after every call of \<open>fetchVolcanoData\<close>, which
  returns the fallback list on failure: here a cached entry with timestamp 0 is replaced
  by the fallback list with the current timestamp after a response with status 503.
\<close>

theorem GET_caches_fallback_after_failure:
  "cachedData old_catalog_state =
     Some \<lparr>volcanoes = [parsed_volcano ''211060'' ''Etna'' Normal], timestamp = 0\<rparr> \<and>
   cachedData (snd (GET (sample_env (HttpResponse 503 None)) old_catalog_state)) =
     Some \<lparr>volcanoes = getFallbackVolcanoData, timestamp = 30000000\<rparr> \<and>
   cachedData (snd (GET (sample_env (HttpResponse 503 None)) old_catalog_state)) \<noteq>
     cachedData old_catalog_state"
proof -
  let ?w = "sample_env (HttpResponse 503 None)"
  have h1: "\<not> catalog_cache_fresh (now_GET ?w) old_catalog_state"
    by (simp add: catalog_cache_fresh_def sample_env_def old_catalog_state_def CACHE_DURATION_def)
  have h2: "catalog_feed_fails (catalog_feed ?w)"
    by (simp add: catalog_feed_fails_def sample_env_def response_ok_def)
  from GET_failure(2) [OF h1 h2]
  have "cachedData (snd (GET ?w old_catalog_state)) =
          Some \<lparr>volcanoes = getFallbackVolcanoData, timestamp = 30000000\<rparr>"
    by (simp add: sample_env_def)
  then show ?thesis
    by (simp add: old_catalog_state_def)
qed

text \<open>
  Claim C3. The status of an identifier is erupting when the eruption snapshot has an
  entry for it (also when it is on a watchlist), else warning when it is on the warning
  list, else watch when on the watch list, else advisory when on the advisory list,
  else normal.
\<close>

theorem determineStatus_priority:
  "(k \<in> fst ` set active \<longrightarrow> determineStatus active k = Erupting) \<and>
   (k \<notin> fst ` set active \<and> k \<in> set WARNING_VOLCANO_IDS \<longrightarrow>
      determineStatus active k = Warning) \<and>
   (k \<notin> fst ` set active \<and> k \<notin> set WARNING_VOLCANO_IDS \<and> k \<in> set WATCH_VOLCANO_IDS \<longrightarrow>
      determineStatus active k = Watch) \<and>
   (k \<notin> fst ` set active \<and> k \<notin> set WARNING_VOLCANO_IDS \<and> k \<notin> set WATCH_VOLCANO_IDS \<and>
    k \<in> set ADVISORY_VOLCANO_IDS \<longrightarrow> determineStatus active k = Advisory) \<and>
   (k \<notin> fst ` set active \<and> k \<notin> set WARNING_VOLCANO_IDS \<and> k \<notin> set WATCH_VOLCANO_IDS \<and>
    k \<notin> set ADVISORY_VOLCANO_IDS \<longrightarrow> determineStatus active k = Normal)"
  by (simp add: determineStatus_def Map_has_iff)

theorem determineStatus_priority_witness:
  "determineStatus [(''263250'', etna_entry)] ''263250'' = Erupting \<and>
   determineStatus [(''211060'', etna_entry)] ''263250'' = Warning \<and>
   determineStatus [(''211060'', etna_entry)] ''264020'' = Watch \<and>
   determineStatus [(''211060'', etna_entry)] ''273070'' = Advisory \<and>
   determineStatus [(''211060'', etna_entry)] ''300150'' = Normal"
  using determineStatus_priority [of "''263250''" "[(''263250'', etna_entry)]"]
    determineStatus_priority [of "''263250''" "[(''211060'', etna_entry)]"]
    determineStatus_priority [of "''264020''" "[(''211060'', etna_entry)]"]
    determineStatus_priority [of "''273070''" "[(''211060'', etna_entry)]"]
    determineStatus_priority [of "''300150''" "[(''211060'', etna_entry)]"]
  by (simp add: WARNING_VOLCANO_IDS_def WATCH_VOLCANO_IDS_def ADVISORY_VOLCANO_IDS_def)

text \<open>
  Claim C4. The list of a successful catalog aggregation is sorted ascending by status
  priority (erupting 0, warning 1, watch 2, advisory 3, normal 4) and, among equal
  priorities, by name under the platform's \<open>localeCompare\<close>, taken as any consistent
  comparator. In particular no normal volcano precedes an erupting one, whatever the names.
\<close>

theorem catalog_sorted_by_priority_then_name:
  assumes "catalog_feed w = HttpResponse code (Some (FeatureCollection fs))"
    and "response_ok code"
    and "consistent_comparator (localeCompare w)"
  shows "\<exists>vs. fst (fetchVolcanoData_try w s) = Inr vs \<and>
           sorted_wrt (by_priority_then_name (localeCompare w)) vs \<and>
           (\<forall>i j. i < j \<and> j < length vs \<longrightarrow>
                  \<not> (status (vs ! i) = Normal \<and> status (vs ! j) = Erupting)) \<and>
           map statusPriority [Erupting, Warning, Watch, Advisory, Normal] = [0, 1, 2, 3, 4]"
proof -
  let ?cmp = "compare_volcanoes (localeCompare w)"
  from assms(3)
  have total: "\<forall>a b. localeCompare w a b \<le> 0 \<or> localeCompare w b a \<le> 0"
    and trans: "\<forall>a b c. localeCompare w a b \<le> 0 \<and> localeCompare w b c \<le> 0
                  \<longrightarrow> localeCompare w a c \<le> 0"
    unfolding consistent_comparator_def by (rule conjunct1, rule conjunct2)
  from fetchVolcanoData_try_success [OF assms(1,2), of s] obtain active parsed where
    run: "fst (fetchVolcanoData_try w s) = Inr (Array_sort ?cmp parsed)"
    by blast
  let ?vs = "Array_sort ?cmp parsed"
  have "sorted_wrt (\<lambda>a b. ?cmp a b \<le> 0) ?vs"
  proof (rule sorted_Array_sort)
    show "?cmp a b \<le> 0 \<or> ?cmp b a \<le> 0" for a b
      using total by (rule by_priority_total)
    show "?cmp a b \<le> 0 \<Longrightarrow> ?cmp b c \<le> 0 \<Longrightarrow> ?cmp a c \<le> 0" for a b c
      using trans by (rule by_priority_trans)
  qed
  then have sorted: "sorted_wrt (by_priority_then_name (localeCompare w)) ?vs"
    by (simp add: compare_volcanoes_le)
  have part: "\<forall>i j. i < j \<and> j < length ?vs \<longrightarrow>
                  \<not> (status (?vs ! i) = Normal \<and> status (?vs ! j) = Erupting)"
  proof (intro allI impI)
    fix i j
    assume "i < j \<and> j < length ?vs"
    with sorted have "by_priority_then_name (localeCompare w) (?vs ! i) (?vs ! j)"
      by (simp add: sorted_wrt_iff_nth_less)
    then have "statusPriority (status (?vs ! i)) \<le> statusPriority (status (?vs ! j))"
      by (auto simp: by_priority_then_name_def)
    then show "\<not> (status (?vs ! i) = Normal \<and> status (?vs ! j) = Erupting)"
      by (auto simp: statusPriority_def)
  qed
  have prio: "map statusPriority [Erupting, Warning, Watch, Advisory, Normal] = [0, 1, 2, 3, 4]"
    by (simp add: statusPriority_def)
  show ?thesis
  proof (intro exI conjI)
    show "fst (fetchVolcanoData_try w s) = Inr ?vs" by (rule run)
    show "sorted_wrt (by_priority_then_name (localeCompare w)) ?vs" by (rule sorted)
    show "\<forall>i j. i < j \<and> j < length ?vs \<longrightarrow>
            \<not> (status (?vs ! i) = Normal \<and> status (?vs ! j) = Erupting)" by (rule part)
    show "map statusPriority [Erupting, Warning, Watch, Advisory, Normal] = [0, 1, 2, 3, 4]"
      by (rule prio)
  qed
qed

theorem catalog_sorted_by_priority_then_name_witness:
  "catalog_feed (sample_env (HttpResponse 200 (Some (FeatureCollection mixed_catalog)))) =
     HttpResponse 200 (Some (FeatureCollection mixed_catalog)) \<and>
   response_ok 200 \<and>
   consistent_comparator codeunit_compare \<and>
   fst (fetchVolcanoData_try
          (sample_env (HttpResponse 200 (Some (FeatureCollection mixed_catalog))))
          empty_state) =
     Inr [parsed_volcano ''300150'' ''Alpha'' Erupting,
          parsed_volcano ''264020'' ''Krakatau'' Watch,
          parsed_volcano ''999999'' ''Zeta'' Normal] \<and>
   sorted_wrt (by_priority_then_name codeunit_compare)
     [parsed_volcano ''300150'' ''Alpha'' Erupting,
      parsed_volcano ''264020'' ''Krakatau'' Watch,
      parsed_volcano ''999999'' ''Zeta'' Normal] \<and>
   \<not> (status ([parsed_volcano ''300150'' ''Alpha'' Erupting,
                parsed_volcano ''264020'' ''Krakatau'' Watch,
                parsed_volcano ''999999'' ''Zeta'' Normal] ! 0) = Normal \<and>
      status ([parsed_volcano ''300150'' ''Alpha'' Erupting,
                parsed_volcano ''264020'' ''Krakatau'' Watch,
                parsed_volcano ''999999'' ''Zeta'' Normal] ! 2) = Erupting)"
proof -
  let ?w = "sample_env (HttpResponse 200 (Some (FeatureCollection mixed_catalog)))"
  let ?out = "[parsed_volcano ''300150'' ''Alpha'' Erupting,
               parsed_volcano ''264020'' ''Krakatau'' Watch,
               parsed_volcano ''999999'' ''Zeta'' Normal]"
  have h1: "catalog_feed ?w = HttpResponse 200 (Some (FeatureCollection mixed_catalog))"
    by (simp add: sample_env_def)
  have h2: "response_ok 200" by (simp add: response_ok_def)
  have lc: "localeCompare ?w = codeunit_compare" by (simp add: sample_env_def)
  have c: "consistent_comparator codeunit_compare"
    by (rule codeunit_compare_consistent)
  then have h3: "consistent_comparator (localeCompare ?w)" by (simp only: lc)
  have out: "fst (fetchVolcanoData_try ?w empty_state) = Inr ?out" by (rule mixed_try)
  from catalog_sorted_by_priority_then_name [OF h1 h2 h3, of empty_state]
  obtain vs where run: "fst (fetchVolcanoData_try ?w empty_state) = Inr vs"
    and sorted: "sorted_wrt (by_priority_then_name (localeCompare ?w)) vs"
    and part: "\<forall>i j. i < j \<and> j < length vs \<longrightarrow>
                 \<not> (status (vs ! i) = Normal \<and> status (vs ! j) = Erupting)"
    by (elim exE conjE)
  from run out have vs: "vs = ?out" by simp
  from sorted have s: "sorted_wrt (by_priority_then_name codeunit_compare) ?out"
    unfolding lc vs .
  from part have "(0::nat) < 2 \<and> 2 < length ?out \<longrightarrow>
      \<not> (status (?out ! 0) = Normal \<and> status (?out ! 2) = Erupting)"
    unfolding vs by (rule allE [where x = 0], elim allE [where x = 2])
  then have p: "\<not> (status (?out ! 0) = Normal \<and> status (?out ! 2) = Erupting)"
    by simp
  show ?thesis
    by (intro conjI) (rule h1 h2 c out s p)+
qed

text \<open>
  Claim C7 says that no two entries of a snapshot share an id, for any input feature
  collection. The aggregation keeps one record per retained feature and never compares
  ids: two features with volcano number 211060 give two records with id 211060.
\<close>

theorem duplicate_ids_counterexample:
  "fst (fetchVolcanoData_try
          (sample_env (HttpResponse 200 (Some (FeatureCollection duplicate_catalog))))
          empty_state) =
     Inr [parsed_volcano ''211060'' ''Etna'' Erupting,
          parsed_volcano ''211060'' ''Etna (summit)'' Erupting] \<and>
   \<not> distinct (map id_v [parsed_volcano ''211060'' ''Etna'' Erupting,
                          parsed_volcano ''211060'' ''Etna (summit)'' Erupting])"
proof -
  have "\<not> distinct (map id_v [parsed_volcano ''211060'' ''Etna'' Erupting,
                          parsed_volcano ''211060'' ''Etna (summit)'' Erupting])"
    by (simp add: parsed_volcano_def)
  then show ?thesis
    by (simp only: sample_try duplicate_parse duplicate_sorted sum.case simp_thms)
qed

text \<open>
  Claim C7, amended. A successful catalog aggregation returns exactly one record per
  feature that the filter retains and merges none: for every id the list has as many
  records as there are retained features with that volcano number. Hence no two entries
  of the list share an id exactly when the retained features carry pairwise distinct
  volcano numbers.
\<close>

theorem ids_distinct_for_distinct_numbers:
  assumes "catalog_feed w = HttpResponse code (Some (FeatureCollection fs))"
    and "response_ok code"
  shows "\<exists>vs. fst (fetchVolcanoData_try w s) = Inr vs \<and>
           length vs = length (filter feature_retained fs) \<and>
           (\<forall>k. length (filter (\<lambda>v. id_v v = k) vs) =
                length (filter (\<lambda>f. map_option String_num (feature_number f) = Some k)
                          (filter feature_retained fs))) \<and>
           (distinct (map id_v vs) \<longleftrightarrow>
              distinct (map feature_number (filter feature_retained fs)))"
proof -
  let ?cmp = "compare_volcanoes (localeCompare w)"
  let ?kept = "filter feature_retained fs"
  from fetchVolcanoData_try_success [OF assms(1,2), of s] obtain active parsed where
    parsed: "map_parse active ?kept = Inr parsed"
    and run: "fst (fetchVolcanoData_try w s) = Inr (Array_sort ?cmp parsed)"
    by blast
  let ?vs = "Array_sort ?cmp parsed"
  note ids = map_parse_ids [OF parsed]
  have l: "length ?vs = length ?kept"
    using map_parse_length [OF parsed] by (simp add: length_Array_sort)
  have c: "\<forall>k. length (filter (\<lambda>v. id_v v = k) ?vs) =
              length (filter (\<lambda>f. map_option String_num (feature_number f) = Some k) ?kept)"
  proof
    fix k
    have "length (filter (\<lambda>v. id_v v = k) ?vs) = length (filter (\<lambda>v. id_v v = k) parsed)"
      by (rule count_Array_sort)
    also have "\<dots> = length (filter (\<lambda>v. (Some \<circ> id_v) v = Some k) parsed)"
      by simp
    also have "\<dots> = length (filter (\<lambda>f. (map_option String_num \<circ> feature_number) f = Some k) ?kept)"
      using ids by (rule count_map_eq)
    finally show "length (filter (\<lambda>v. id_v v = k) ?vs) =
              length (filter (\<lambda>f. map_option String_num (feature_number f) = Some k) ?kept)"
      by simp
  qed
  have "distinct (map id_v ?vs) \<longleftrightarrow> distinct (map id_v parsed)"
    by (rule distinct_map_Array_sort)
  also have "\<dots> \<longleftrightarrow> distinct (map (Some \<circ> id_v) parsed)"
    by (simp only: distinct_ids_iff_Some)
  also have "\<dots> \<longleftrightarrow> distinct (map (map_option String_num \<circ> feature_number) ?kept)"
    by (simp only: ids)
  also have "\<dots> \<longleftrightarrow> distinct (map feature_number ?kept)"
    by (rule retained_numbers_iff)
  finally have d: "distinct (map id_v ?vs) \<longleftrightarrow> distinct (map feature_number ?kept)" .
  show ?thesis
    by (intro exI conjI) (rule run l c d)+
qed

theorem ids_distinct_for_distinct_numbers_witness:
  "catalog_feed (sample_env (HttpResponse 200 (Some (FeatureCollection mixed_catalog)))) =
     HttpResponse 200 (Some (FeatureCollection mixed_catalog)) \<and>
   catalog_feed (sample_env (HttpResponse 200 (Some (FeatureCollection duplicate_catalog)))) =
     HttpResponse 200 (Some (FeatureCollection duplicate_catalog)) \<and>
   response_ok 200 \<and>
   distinct (map feature_number (filter feature_retained mixed_catalog)) \<and>
   (\<exists>vs. fst (fetchVolcanoData_try
              (sample_env (HttpResponse 200 (Some (FeatureCollection mixed_catalog))))
              empty_state) = Inr vs \<and>
         length vs = 3 \<and> distinct (map id_v vs)) \<and>
   (\<exists>vs. fst (fetchVolcanoData_try
              (sample_env (HttpResponse 200 (Some (FeatureCollection duplicate_catalog))))
              empty_state) = Inr vs \<and>
         length vs = 2 \<and> length (filter (\<lambda>v. id_v v = ''211060'') vs) = 2 \<and>
         \<not> distinct (map id_v vs))"
proof -
  let ?w = "sample_env (HttpResponse 200 (Some (FeatureCollection mixed_catalog)))"
  let ?d = "sample_env (HttpResponse 200 (Some (FeatureCollection duplicate_catalog)))"
  have h1: "catalog_feed ?w = HttpResponse 200 (Some (FeatureCollection mixed_catalog))"
    by (simp add: sample_env_def)
  have h1': "catalog_feed ?d = HttpResponse 200 (Some (FeatureCollection duplicate_catalog))"
    by (simp add: sample_env_def)
  have h2: "response_ok 200" by (simp add: response_ok_def)
  have h3: "distinct (map feature_number (filter feature_retained mixed_catalog))"
    by (simp add: mixed_catalog_def retained_sample feature_number_def volcano_feature_def)
  have n: "length (filter feature_retained mixed_catalog) = 3"
    by (simp add: mixed_catalog_def retained_sample)
  from ids_distinct_for_distinct_numbers [OF h1 h2, of empty_state] obtain vs where
    "fst (fetchVolcanoData_try ?w empty_state) = Inr vs"
    "length vs = length (filter feature_retained mixed_catalog)"
    "distinct (map id_v vs) \<longleftrightarrow> distinct (map feature_number (filter feature_retained mixed_catalog))"
    by blast
  with h3 n have a: "\<exists>vs. fst (fetchVolcanoData_try ?w empty_state) = Inr vs \<and>
         length vs = 3 \<and> distinct (map id_v vs)"
    by auto
  have kept: "filter feature_retained duplicate_catalog = duplicate_catalog"
    by (simp add: duplicate_catalog_def retained_sample)
  have n2: "length duplicate_catalog = 2" by (simp add: duplicate_catalog_def)
  have num: "String_num 211060 = ''211060''" by (simp add: String_num_eval)
  have cnt: "length (filter (\<lambda>f. map_option String_num (feature_number f) = Some ''211060'')
               duplicate_catalog) = 2"
    by (simp add: duplicate_catalog_def feature_number_def volcano_feature_def num)
  have nd: "\<not> distinct (map feature_number duplicate_catalog)"
    by (simp add: duplicate_catalog_def feature_number_def volcano_feature_def)
  from ids_distinct_for_distinct_numbers [OF h1' h2, of empty_state] obtain us where
    u1: "fst (fetchVolcanoData_try ?d empty_state) = Inr us"
    and u2: "length us = length (filter feature_retained duplicate_catalog)"
    and u3: "\<forall>k. length (filter (\<lambda>v. id_v v = k) us) =
                length (filter (\<lambda>f. map_option String_num (feature_number f) = Some k)
                          (filter feature_retained duplicate_catalog))"
    and u4: "distinct (map id_v us) \<longleftrightarrow>
              distinct (map feature_number (filter feature_retained duplicate_catalog))"
    by blast
  from u2 kept n2 have l2: "length us = 2" by simp
  from u3 kept cnt have c2: "length (filter (\<lambda>v. id_v v = ''211060'') us) = 2" by simp
  from u4 kept nd have d2: "\<not> distinct (map id_v us)" by simp
  have b: "\<exists>vs. fst (fetchVolcanoData_try ?d empty_state) = Inr vs \<and>
         length vs = 2 \<and> length (filter (\<lambda>v. id_v v = ''211060'') vs) = 2 \<and>
         \<not> distinct (map id_v vs)"
    by (intro exI conjI) (rule u1 l2 c2 d2)+
  show ?thesis
    by (intro conjI) (rule h1 h1' h2 h3 a b)+
qed

text \<open>
  Claim C8. Features without geometry, coordinates, properties or a name are left out
  and the fetch still succeeds: the list has one record for each feature that has all
  four, with the ids of exactly those features, and the handler answers with status 200
  and that list. A collection of one feature without geometry and one well-formed
  feature gives a one-element list.
\<close>

theorem malformed_features_excluded:
  assumes "catalog_feed w = HttpResponse code (Some (FeatureCollection fs))"
    and "response_ok code"
  shows "\<exists>vs. fst (fetchVolcanoData_try w s) = Inr vs \<and>
           length vs = length (filter (\<lambda>f. \<not> lacks_required_member f) fs) \<and>
           Some ` id_v ` set vs =
             (map_option String_num \<circ> feature_number) ` {f \<in> set fs. \<not> lacks_required_member f} \<and>
           (\<not> catalog_cache_fresh (now_GET w) s \<longrightarrow>
              fst (GET w s) = Inr \<lparr>http_status = 200, volcanoes_r = vs, lastUpdated = now_GET w,
                                   totalCount = length vs\<rparr>)"
proof -
  let ?cmp = "compare_volcanoes (localeCompare w)"
  have "feature_retained = (\<lambda>f. \<not> lacks_required_member f)"
    by (rule ext) (simp add: feature_retained_iff)
  then have same: "filter (\<lambda>f. \<not> lacks_required_member f) fs = filter feature_retained fs"
    by simp
  from fetchVolcanoData_try_success [OF assms, of s] obtain active parsed where
    parsed: "map_parse active (filter feature_retained fs) = Inr parsed"
    and run: "fst (fetchVolcanoData_try w s) = Inr (Array_sort ?cmp parsed)"
    by blast
  let ?vs = "Array_sort ?cmp parsed"
  have l: "length ?vs = length (filter (\<lambda>f. \<not> lacks_required_member f) fs)"
    using map_parse_length [OF parsed] by (simp add: length_Array_sort same)
  have "set (map (Some \<circ> id_v) parsed) =
        set (map (map_option String_num \<circ> feature_number) (filter feature_retained fs))"
    using map_parse_ids [OF parsed] by simp
  then have ids: "Some ` id_v ` set ?vs =
      (map_option String_num \<circ> feature_number) ` {f \<in> set fs. \<not> lacks_required_member f}"
    by (simp add: set_Array_sort image_comp feature_retained_iff)
  have get: "\<not> catalog_cache_fresh (now_GET w) s \<longrightarrow>
      fst (GET w s) = Inr \<lparr>http_status = 200, volcanoes_r = ?vs, lastUpdated = now_GET w,
                           totalCount = length ?vs\<rparr>"
  proof
    assume miss: "\<not> catalog_cache_fresh (now_GET w) s"
    from run have "fst (fetchVolcanoData w s) = Inr ?vs"
      by (simp add: fetchVolcanoData_result)
    from GET_miss(1) [OF miss this]
    show "fst (GET w s) = Inr \<lparr>http_status = 200, volcanoes_r = ?vs, lastUpdated = now_GET w,
                           totalCount = length ?vs\<rparr>" .
  qed
  show ?thesis
    by (intro exI conjI) (rule run l ids get)+
qed

theorem malformed_features_excluded_witness:
  "catalog_feed (sample_env (HttpResponse 200 (Some (FeatureCollection partly_malformed_catalog)))) =
     HttpResponse 200 (Some (FeatureCollection partly_malformed_catalog)) \<and>
   response_ok 200 \<and>
   lacks_required_member (partly_malformed_catalog ! 0) \<and>
   \<not> lacks_required_member (partly_malformed_catalog ! 1) \<and>
   \<not> catalog_cache_fresh 30000000 empty_state \<and>
   (\<exists>vs. fst (fetchVolcanoData_try
              (sample_env (HttpResponse 200 (Some (FeatureCollection partly_malformed_catalog))))
              empty_state) = Inr vs \<and>
         length vs = 1 \<and> id_v ` set vs = {''211060''} \<and>
         fst (GET (sample_env (HttpResponse 200 (Some (FeatureCollection partly_malformed_catalog))))
                empty_state) =
           Inr \<lparr>http_status = 200, volcanoes_r = vs, lastUpdated = 30000000, totalCount = 1\<rparr>)"
proof -
  let ?w = "sample_env (HttpResponse 200 (Some (FeatureCollection partly_malformed_catalog)))"
  have h1: "catalog_feed ?w = HttpResponse 200 (Some (FeatureCollection partly_malformed_catalog))"
    by (simp add: sample_env_def)
  have h2: "response_ok 200" by (simp add: response_ok_def)
  have now: "now_GET ?w = 30000000" by (simp add: sample_env_def)
  have miss: "\<not> catalog_cache_fresh 30000000 empty_state"
    by (simp add: catalog_cache_fresh_def empty_state_def)
  have bad: "lacks_required_member (partly_malformed_catalog ! 0)"
    by (simp add: partly_malformed_catalog_def lacks_required_member_def volcano_feature_def)
  have good: "\<not> lacks_required_member (partly_malformed_catalog ! 1)"
    by (simp add: partly_malformed_catalog_def lacks_required_member_def volcano_feature_def)
  have keep: "{f \<in> set partly_malformed_catalog. \<not> lacks_required_member f} =
              {volcano_feature 211060 ''Etna''}"
    using bad good by (auto simp: partly_malformed_catalog_def)
  have n: "length (filter (\<lambda>f. \<not> lacks_required_member f) partly_malformed_catalog) = 1"
    using bad good by (simp add: partly_malformed_catalog_def)
  have num: "(map_option String_num \<circ> feature_number) (volcano_feature 211060 ''Etna'') =
             Some ''211060''"
    by (simp add: feature_number_def volcano_feature_def String_num_eval)
  from malformed_features_excluded [OF h1 h2, of empty_state] obtain vs where
    run: "fst (fetchVolcanoData_try ?w empty_state) = Inr vs"
    and len: "length vs = length (filter (\<lambda>f. \<not> lacks_required_member f) partly_malformed_catalog)"
    and ids: "Some ` id_v ` set vs =
       (map_option String_num \<circ> feature_number) `
         {f \<in> set partly_malformed_catalog. \<not> lacks_required_member f}"
    and get: "\<not> catalog_cache_fresh (now_GET ?w) empty_state \<longrightarrow>
       fst (GET ?w empty_state) =
         Inr \<lparr>http_status = 200, volcanoes_r = vs, lastUpdated = now_GET ?w,
              totalCount = length vs\<rparr>"
    by (elim exE conjE)
  from ids keep num have "Some ` id_v ` set vs = {Some ''211060''}" by simp
  then have "Some ` id_v ` set vs = Some ` {''211060''}" by simp
  then have i: "id_v ` set vs = {''211060''}"
    by (simp only: inj_image_eq_iff [OF inj_Some])
  from len n have l: "length vs = 1" by simp
  from get miss have g: "fst (GET ?w empty_state) =
      Inr \<lparr>http_status = 200, volcanoes_r = vs, lastUpdated = 30000000, totalCount = 1\<rparr>"
    by (simp add: now l)
  have "\<exists>vs. fst (fetchVolcanoData_try ?w empty_state) = Inr vs \<and>
         length vs = 1 \<and> id_v ` set vs = {''211060''} \<and>
         fst (GET ?w empty_state) =
           Inr \<lparr>http_status = 200, volcanoes_r = vs, lastUpdated = 30000000, totalCount = 1\<rparr>"
    by (intro exI conjI) (rule run l i g)+
  with h1 h2 bad good miss show ?thesis by (intro conjI)
qed

text \<open>
  Claim C10. A record parsed from a catalog feature has no explosivity index, so no
  record of a successful aggregation has one, while each of the five fallback records
  has one. Hence, from a cache whose records with an index are fallback records, the
  handler answers with such a list and leaves such a cache.
\<close>

theorem vei_absent_in_parsed_records:
  "(parseGeoJSONFeature active f = Inr v \<longrightarrow> vei v = None) \<and>
   (fst (fetchVolcanoData_try w s) = Inr vs \<longrightarrow> (\<forall>v \<in> set vs. vei v = None)) \<and>
   (\<forall>v \<in> set getFallbackVolcanoData. vei v \<noteq> None) \<and>
   (cache_vei_ok s \<longrightarrow>
      (\<exists>r. fst (GET w s) = Inr r \<and> vei_only_in_fallback (volcanoes_r r)) \<and>
      cache_vei_ok (snd (GET w s)))"
proof (intro conjI impI)
  assume "parseGeoJSONFeature active f = Inr v"
  then show "vei v = None" by (rule parse_fields(1))
next
  assume "fst (fetchVolcanoData_try w s) = Inr vs"
  then show "\<forall>v \<in> set vs. vei v = None" using try_vei by blast
next
  show "\<forall>v \<in> set getFallbackVolcanoData. vei v \<noteq> None" by (rule fallback_all_vei)
next
  assume "cache_vei_ok s"
  then show "\<exists>r. fst (GET w s) = Inr r \<and> vei_only_in_fallback (volcanoes_r r)"
    using GET_keeps_vei_invariant by blast
next
  assume "cache_vei_ok s"
  then show "cache_vei_ok (snd (GET w s))"
    using GET_keeps_vei_invariant by blast
qed

theorem vei_absent_in_parsed_records_witness:
  "parseGeoJSONFeature sample_snapshot (volcano_feature 211060 ''Etna'') =
     Inr (parsed_volcano ''211060'' ''Etna'' Erupting) \<and>
   vei (parsed_volcano ''211060'' ''Etna'' Erupting) = None \<and>
   fst (fetchVolcanoData_try
          (sample_env (HttpResponse 200 (Some (FeatureCollection mixed_catalog)))) empty_state) =
     Inr [parsed_volcano ''300150'' ''Alpha'' Erupting,
          parsed_volcano ''264020'' ''Krakatau'' Watch,
          parsed_volcano ''999999'' ''Zeta'' Normal] \<and>
   list_all (\<lambda>v. vei v = None)
     [parsed_volcano ''300150'' ''Alpha'' Erupting,
      parsed_volcano ''264020'' ''Krakatau'' Watch,
      parsed_volcano ''999999'' ''Zeta'' Normal] \<and>
   cache_vei_ok empty_state \<and>
   cache_vei_ok (snd (GET (sample_env (HttpResponse 200 (Some (FeatureCollection mixed_catalog))))
                        empty_state))"
proof -
  let ?w = "sample_env (HttpResponse 200 (Some (FeatureCollection mixed_catalog)))"
  let ?vs = "[parsed_volcano ''300150'' ''Alpha'' Erupting,
              parsed_volcano ''264020'' ''Krakatau'' Watch,
              parsed_volcano ''999999'' ''Zeta'' Normal]"
  have n: "String_num 211060 = ''211060''" by (simp add: String_num_eval)
  have h1: "parseGeoJSONFeature sample_snapshot (volcano_feature 211060 ''Etna'') =
     Inr (parsed_volcano ''211060'' ''Etna'' Erupting)"
    by (simp add: parse_sample n status_211060)
  have h2: "fst (fetchVolcanoData_try ?w empty_state) = Inr ?vs" by (rule mixed_try)
  have h3: "cache_vei_ok empty_state" by (simp add: cache_vei_ok_def empty_state_def)
  note t = vei_absent_in_parsed_records [of sample_snapshot "volcano_feature 211060 ''Etna''"
      "parsed_volcano ''211060'' ''Etna'' Erupting" ?w empty_state ?vs]
  from t h1 have c1: "vei (parsed_volcano ''211060'' ''Etna'' Erupting) = None" by blast
  from t h2 have "\<forall>v \<in> set ?vs. vei v = None" by blast
  then have c2: "list_all (\<lambda>v. vei v = None) ?vs" by (simp only: list_all_iff)
  from t h3 have c3: "cache_vei_ok (snd (GET ?w empty_state))" by blast
  show ?thesis
    by (intro conjI) (rule h1 c1 h2 c2 h3 c3)+
qed

end
